theory Spec2Isabelle
  imports Complex_Main
begin

section \<open>JavaScript values\<close>

text \<open>
  The engine of \<open>app.js\<close> works on values decoded from JSON.  A number is a real
  number or one of the three special values of the language; arithmetic and comparison
  follow the language on the special values, while rounding of doubles and the sign of
  zero are not represented.  A string is a list of bytes: text outside ASCII is carried in
  its UTF-8 encoding.  An object is an association list from property names to values.
\<close>

datatype jsnum = Fin real | PInf | NInf | NaN

datatype jsval =
    JUndefined
  | JNull
  | JBool bool
  | JNum jsnum
  | JStr string
  | JArr "jsval list"
  | JObj "(string \<times> jsval) list"

type_synonym obj = "(string \<times> jsval) list"

datatype error = TypeError

text \<open>
  Conversions between numbers and their text (\<open>Number("12.5")\<close>, \<open>String(12.5)\<close>)
  belong to the host, not to the program: they are parameters of the model, and every
  general theorem holds for each choice of them.
\<close>

record host =
  str_to_num :: "string \<Rightarrow> jsnum"
  num_to_str :: "jsnum \<Rightarrow> string"

subsection \<open>Numbers\<close>

fun isFinite :: "jsnum \<Rightarrow> bool" where
  "isFinite (Fin _) = True"
| "isFinite _ = False"

text \<open>\<open>a <= b\<close>; any comparison with \<open>NaN\<close> is false.\<close>

fun js_le :: "jsnum \<Rightarrow> jsnum \<Rightarrow> bool" where
  "js_le NaN _ = False"
| "js_le _ NaN = False"
| "js_le (Fin x) (Fin y) = (x \<le> y)"
| "js_le NInf _ = True"
| "js_le _ PInf = True"
| "js_le PInf _ = False"
| "js_le _ NInf = False"

definition js_ge :: "jsnum \<Rightarrow> jsnum \<Rightarrow> bool" where
  "js_ge a b = js_le b a"

definition js_lt :: "jsnum \<Rightarrow> jsnum \<Rightarrow> bool" where
  "js_lt a b = (js_le a b \<and> a \<noteq> b)"

definition js_gt :: "jsnum \<Rightarrow> jsnum \<Rightarrow> bool" where
  "js_gt a b = js_lt b a"

fun js_neg :: "jsnum \<Rightarrow> jsnum" where
  "js_neg (Fin x) = Fin (- x)"
| "js_neg PInf = NInf"
| "js_neg NInf = PInf"
| "js_neg NaN = NaN"

fun js_add :: "jsnum \<Rightarrow> jsnum \<Rightarrow> jsnum" where
  "js_add NaN _ = NaN"
| "js_add _ NaN = NaN"
| "js_add (Fin x) (Fin y) = Fin (x + y)"
| "js_add PInf NInf = NaN"
| "js_add NInf PInf = NaN"
| "js_add PInf _ = PInf"
| "js_add NInf _ = NInf"
| "js_add _ PInf = PInf"
| "js_add _ NInf = NInf"

definition js_sub :: "jsnum \<Rightarrow> jsnum \<Rightarrow> jsnum" where
  "js_sub a b = js_add a (js_neg b)"

definition js_sign :: "jsnum \<Rightarrow> real" where
  "js_sign a = (case a of Fin x \<Rightarrow> sgn x | PInf \<Rightarrow> 1 | NInf \<Rightarrow> -1 | NaN \<Rightarrow> 0)"

definition js_inf :: "real \<Rightarrow> jsnum" where
  "js_inf s = (if s = 0 then NaN else if 0 < s then PInf else NInf)"

fun js_mul :: "jsnum \<Rightarrow> jsnum \<Rightarrow> jsnum" where
  "js_mul NaN _ = NaN"
| "js_mul _ NaN = NaN"
| "js_mul (Fin x) (Fin y) = Fin (x * y)"
| "js_mul a b = js_inf (js_sign a * js_sign b)"

fun js_div :: "jsnum \<Rightarrow> jsnum \<Rightarrow> jsnum" where
  "js_div NaN _ = NaN"
| "js_div _ NaN = NaN"
| "js_div (Fin x) (Fin y) = (if y = 0 then js_inf (sgn x) else Fin (x / y))"
| "js_div (Fin x) _ = Fin 0"
| "js_div a (Fin y) = js_inf (js_sign a * (if y < 0 then -1 else 1))"
| "js_div _ _ = NaN"

text \<open>\<open>Math.min\<close> and \<open>Math.max\<close> of two arguments: \<open>NaN\<close> if either is.\<close>

definition Math_min :: "jsnum \<Rightarrow> jsnum \<Rightarrow> jsnum" where
  "Math_min a b = (if a = NaN \<or> b = NaN then NaN else if js_le a b then a else b)"

definition Math_max :: "jsnum \<Rightarrow> jsnum \<Rightarrow> jsnum" where
  "Math_max a b = (if a = NaN \<or> b = NaN then NaN else if js_le a b then b else a)"

subsection \<open>Strings\<close>

text \<open>
  The character classes of the language on bytes: \<open>\s\<close> and \<open>trim\<close> know the six
  ASCII white-space characters (a space written outside ASCII is not recognised as one),
  \<open>\d\<close> the ten digits, \<open>\w\<close> the ASCII letters, the digits and the underscore.
\<close>

definition is_space :: "char \<Rightarrow> bool" where
  "is_space c = (c \<in> set [CHR 0x09, CHR 0x0A, CHR 0x0B, CHR 0x0C, CHR 0x0D, CHR 0x20])"

definition is_digit :: "char \<Rightarrow> bool" where
  "is_digit c = (let n = (of_char c :: nat) in 48 \<le> n \<and> n \<le> 57)"

definition is_word :: "char \<Rightarrow> bool" where
  "is_word c = (let n = (of_char c :: nat) in
     (48 \<le> n \<and> n \<le> 57) \<or> (65 \<le> n \<and> n \<le> 90) \<or> (97 \<le> n \<and> n \<le> 122) \<or> n = 95)"

definition is_quote :: "char \<Rightarrow> bool" where
  "is_quote c = (c = CHR 0x27 \<or> c = CHR 0x22)"

text \<open>\<open>s.trim()\<close>\<close>

definition trim :: "string \<Rightarrow> string" where
  "trim s = rev (dropWhile is_space (rev (dropWhile is_space s)))"

text \<open>\<open>s.toLowerCase()\<close>: the letters A to Z are folded; bytes of UTF-8 sequences stay.\<close>

definition lower_char :: "char \<Rightarrow> char" where
  "lower_char c = (let n = (of_char c :: nat) in if 65 \<le> n \<and> n \<le> 90 then char_of (n + 32) else c)"

definition toLowerCase :: "string \<Rightarrow> string" where
  "toLowerCase s = map lower_char s"

text \<open>\<open>s.startsWith(t)\<close> and \<open>s.includes(t)\<close>\<close>

fun startsWith :: "string \<Rightarrow> string \<Rightarrow> bool" where
  "startsWith s [] = True"
| "startsWith [] (c # t) = False"
| "startsWith (d # s) (c # t) = (d = c \<and> startsWith s t)"

fun str_includes :: "string \<Rightarrow> string \<Rightarrow> bool" where
  "str_includes [] t = (t = [])"
| "str_includes (c # s) t = (startsWith (c # s) t \<or> str_includes s t)"

text \<open>\<open>parts.join(sep)\<close> on strings\<close>

fun join :: "string \<Rightarrow> string list \<Rightarrow> string" where
  "join sep [] = []"
| "join sep [x] = x"
| "join sep (x # y # ys) = x @ sep @ join sep (y # ys)"

subsection \<open>Coercions\<close>

text \<open>Truthiness, as tested by \<open>!v\<close>, \<open>v || w\<close>, \<open>v && w\<close> and \<open>if (v)\<close>.\<close>

fun truthy :: "jsval \<Rightarrow> bool" where
  "truthy JUndefined = False"
| "truthy JNull = False"
| "truthy (JBool b) = b"
| "truthy (JNum n) = (n \<noteq> NaN \<and> n \<noteq> Fin 0)"
| "truthy (JStr s) = (s \<noteq> [])"
| "truthy (JArr _) = True"
| "truthy (JObj _) = True"

text \<open>\<open>a || b\<close>\<close>

definition js_or :: "jsval \<Rightarrow> jsval \<Rightarrow> jsval" where
  "js_or a b = (if truthy a then a else b)"

text \<open>\<open>a ?? b\<close>\<close>

definition nullish :: "jsval \<Rightarrow> bool" where
  "nullish v = (v = JUndefined \<or> v = JNull)"

definition coalesce :: "jsval \<Rightarrow> jsval \<Rightarrow> jsval" where
  "coalesce a b = (if nullish a then b else a)"

text \<open>
  \<open>String(v)\<close>, also the conversion inside a template literal.  An array prints its
  elements separated by commas, with nothing for \<open>null\<close> and \<open>undefined\<close>; an object
  decoded from JSON prints as \<open>[object Object]\<close>.
\<close>

fun ToString :: "host \<Rightarrow> jsval \<Rightarrow> string" where
  "ToString h JUndefined = ''undefined''"
| "ToString h JNull = ''null''"
| "ToString h (JBool b) = (if b then ''true'' else ''false'')"
| "ToString h (JNum n) = num_to_str h n"
| "ToString h (JStr s) = s"
| "ToString h (JArr xs) =
     join '','' (map (\<lambda>x. if x = JUndefined \<or> x = JNull then [] else ToString h x) xs)"
| "ToString h (JObj _) = ''[object Object]''"

text \<open>\<open>Number(v)\<close>, also the conversion of an operand compared with a number.\<close>

fun ToNumber :: "host \<Rightarrow> jsval \<Rightarrow> jsnum" where
  "ToNumber h JUndefined = NaN"
| "ToNumber h JNull = Fin 0"
| "ToNumber h (JBool b) = (if b then Fin 1 else Fin 0)"
| "ToNumber h (JNum n) = n"
| "ToNumber h (JStr s) = str_to_num h s"
| "ToNumber h (JArr xs) = str_to_num h (ToString h (JArr xs))"
| "ToNumber h (JObj kv) = str_to_num h (ToString h (JObj kv))"

text \<open>
  \<open>o.k\<close> and \<open>o[k]\<close> for a data property: an absent property reads as \<open>undefined\<close>.
  Every property name the engine reads from a row is a data field, and inherited
  members (\<open>constructor\<close>, \<open>toString\<close>) are not data.
\<close>

definition get :: "obj \<Rightarrow> string \<Rightarrow> jsval" where
  "get p k = (case map_of p k of None \<Rightarrow> JUndefined | Some v \<Rightarrow> v)"

text \<open>
  The same read on any value.  Arrays and primitives have none of the data fields; the
  callers test \<open>!p\<close> or \<open>x && ...\<close> before they read, so \<open>null\<close> and \<open>undefined\<close>
  are never read from.
\<close>

fun field :: "jsval \<Rightarrow> string \<Rightarrow> jsval" where
  "field (JObj kv) k = get kv k"
| "field _ k = JUndefined"

text \<open>\<open>num(v)\<close> of \<open>app.js\<close>\<close>

definition num :: "host \<Rightarrow> jsval \<Rightarrow> jsnum" where
  "num h v = (let n = ToNumber h (coalesce v (JNum (Fin 0))) in if isFinite n then n else Fin 0)"

section \<open>Regular expressions of the rule compiler\<close>

text \<open>
  The patterns of \<open>compilePredicate\<close> and \<open>compileHeat\<close> are sequences of single
  characters and character classes, each taken once, optionally (\<open>?\<close>), or greedily
  (\<open>*\<close>, \<open>+\<close>), some of them inside a capturing group.  \<open>rmatch\<close> matches such a
  sequence at the start of a string the way a backtracking matcher does: the longest
  repetition first, giving back one character at a time, and it returns the captured
  groups in order.  \<open>js_match\<close> is \<open>s.match(re)\<close> without the \<open>g\<close> flag: the leftmost
  start that matches, or \<open>None\<close> for \<open>null\<close>.
\<close>

datatype cls = Lit char | Space | Digit | DigitDot | Word | Quote | NotQuote

datatype quant = One | Opt | Star | Plus

type_synonym atom = "cls \<times> quant \<times> bool"

fun cls_mem :: "cls \<Rightarrow> char \<Rightarrow> bool" where
  "cls_mem (Lit d) c = (c = d)"
| "cls_mem Space c = is_space c"
| "cls_mem Digit c = is_digit c"
| "cls_mem DigitDot c = (is_digit c \<or> c = CHR ''.'')"
| "cls_mem Word c = is_word c"
| "cls_mem Quote c = is_quote c"
| "cls_mem NotQuote c = (\<not> is_quote c)"

text \<open>The repetition counts to try, in order, when \<open>n\<close> characters of the class are ahead.\<close>

fun counts :: "quant \<Rightarrow> nat \<Rightarrow> nat list" where
  "counts One n = (if 0 < n then [1] else [])"
| "counts Opt n = (if 0 < n then [1, 0] else [0])"
| "counts Star n = rev [0..<Suc n]"
| "counts Plus n = rev [1..<Suc n]"

text \<open>The first alternative that succeeds.\<close>

definition orelse :: "'a option \<Rightarrow> 'a option \<Rightarrow> 'a option" where
  "orelse a b = (case a of Some r \<Rightarrow> Some r | None \<Rightarrow> b)"

definition keep :: "bool \<Rightarrow> string \<Rightarrow> string list \<Rightarrow> string list" where
  "keep cap g groups = (if cap then g # groups else groups)"

fun rmatch :: "atom list \<Rightarrow> string \<Rightarrow> string list option"
  and try_counts :: "bool \<Rightarrow> atom list \<Rightarrow> string \<Rightarrow> nat list \<Rightarrow> string list option" where
  "rmatch [] s = Some []"
| "rmatch ((c, q, cap) # r) s =
     try_counts cap r s (counts q (length (takeWhile (cls_mem c) s)))"
| "try_counts cap r s [] = None"
| "try_counts cap r s (k # ks) =
     orelse (map_option (keep cap (take k s)) (rmatch r (drop k s))) (try_counts cap r s ks)"

fun js_match :: "atom list \<Rightarrow> string \<Rightarrow> string list option" where
  "js_match re [] = rmatch re []"
| "js_match re (c # s) = orelse (rmatch re (c # s)) (js_match re s)"

definition lits :: "string \<Rightarrow> atom list" where
  "lits s = map (\<lambda>c. (Lit c, One, False)) s"

definition ws :: "atom list" where
  "ws = [(Space, Star, False)]"

definition grp :: "cls \<Rightarrow> atom list" where
  "grp c = [(c, Plus, True)]"

definition quote :: "atom list" where
  "quote = [(Quote, One, False)]"

text \<open>\<open>/r\s*>=\s*([\d.]+)\s*&&\s*v\s*>=\s*(\d+)/\<close>\<close>

definition re_topRated :: "atom list" where
  "re_topRated =
     lits ''r'' @ ws @ lits ''>='' @ ws @ grp DigitDot @ ws @ lits ''&&'' @ ws @
     lits ''v'' @ ws @ lits ''>='' @ ws @ grp Digit"

text \<open>\<open>/r\s*>=\s*([\d.]+)\s*&&\s*v\s*>=\s*(\d+)\s*&&\s*v\s*<=\s*(\d+)\s*&&\s*s\s*!==\s*['"]([^'"]+)['"]/\<close>\<close>

definition re_discover :: "atom list" where
  "re_discover =
     re_topRated @ ws @ lits ''&&'' @ ws @
     lits ''v'' @ ws @ lits ''<='' @ ws @ grp Digit @ ws @ lits ''&&'' @ ws @
     lits ''s'' @ ws @ lits ''!=='' @ ws @ quote @ grp NotQuote @ quote"

text \<open>\<open>/b2\s*>=\s*([\d.]+)\s*&&\s*v\s*>=\s*(\d+)\s*&&\s*s\s*!==\s*['"]([^'"]+)['"]/\<close>\<close>

definition re_mustGo :: "atom list" where
  "re_mustGo =
     lits ''b2'' @ ws @ lits ''>='' @ ws @ grp DigitDot @ ws @ lits ''&&'' @ ws @
     lits ''v'' @ ws @ lits ''>='' @ ws @ grp Digit @ ws @ lits ''&&'' @ ws @
     lits ''s'' @ ws @ lits ''!=='' @ ws @ quote @ grp NotQuote @ quote"

text \<open>\<open>/const q\s*=\s*['"]([^'"]+)['"]/\<close>\<close>

definition re_raqi :: "atom list" where
  "re_raqi = lits ''const q'' @ ws @ lits ''='' @ ws @ quote @ grp NotQuote @ quote"

text \<open>\<open>/return\s*\(\s*p\.(\w+)\s*\?\?\s*([\d.]+)\s*\)\s*;?/\<close>\<close>

definition re_heat :: "atom list" where
  "re_heat =
     lits ''return'' @ ws @ lits ''('' @ ws @ lits ''p.'' @ grp Word @ ws @ lits ''??'' @ ws @
     grp DigitDot @ ws @ lits '')'' @ ws @ [(Lit CHR '';'', Opt, False)]"

subsection \<open>Numerals in a rule\<close>

definition digit_val :: "char \<Rightarrow> nat" where
  "digit_val c = of_char c - 48"

definition dec :: "string \<Rightarrow> nat" where
  "dec ds = foldl (\<lambda>n c. 10 * n + digit_val c) 0 ds"

text \<open>
  \<open>parseFloat(s)\<close> and \<open>parseInt(s, 10)\<close> on the text of a captured group, which
  holds digits and dots only: the longest prefix that is a decimal numeral, \<open>NaN\<close> when
  there is none.
\<close>

definition parseFloat :: "string \<Rightarrow> jsnum" where
  "parseFloat s =
     (let ip = takeWhile is_digit s;
          rest = dropWhile is_digit s;
          fp = (case rest of [] \<Rightarrow> [] | c # t \<Rightarrow> if c = CHR ''.'' then takeWhile is_digit t else [])
      in if ip = [] \<and> fp = [] then NaN
         else Fin (real (dec ip) + real (dec fp) / 10 ^ length fp))"

definition parseInt :: "string \<Rightarrow> jsnum" where
  "parseInt s =
     (let ds = takeWhile is_digit s in if ds = [] then NaN else Fin (real (dec ds)))"

section \<open>Config rule compiler\<close>

type_synonym predicate = "obj \<Rightarrow> error + bool"

type_synonym heat = "obj \<Rightarrow> jsnum"

text \<open>\<open>(p.tags || []).join(sep)\<close>: only an array has \<open>join\<close>.\<close>

definition tags_join :: "host \<Rightarrow> string \<Rightarrow> obj \<Rightarrow> error + string" where
  "tags_join h sep p =
     (case js_or (get p ''tags'') (JArr []) of
        JArr xs \<Rightarrow>
          Inr (join sep (map (\<lambda>x. if x = JUndefined \<or> x = JNull then [] else ToString h x) xs))
      | _ \<Rightarrow> Inl TypeError)"

text \<open>The template \<open>`${p.name} ${(p.tags||[]).join(sep)} ${p.category} ${p.district}`\<close>\<close>

definition haystack :: "host \<Rightarrow> string \<Rightarrow> obj \<Rightarrow> error + string" where
  "haystack h sep p =
     (case tags_join h sep p of
        Inl e \<Rightarrow> Inl e
      | Inr t \<Rightarrow>
          Inr (ToString h (get p ''name'') @ '' '' @ t @ '' '' @
               ToString h (get p ''category'') @ '' '' @ ToString h (get p ''district'')))"

text \<open>\<open>String(codeStr || "").trim()\<close>, the text both compilers work on.\<close>

definition rule_text :: "host \<Rightarrow> jsval \<Rightarrow> string" where
  "rule_text h codeStr = trim (ToString h (js_or codeStr (JStr [])))"

definition always_true :: predicate where
  "always_true = (\<lambda>_. Inr True)"

definition discover_pred :: "host \<Rightarrow> jsnum \<Rightarrow> jsnum \<Rightarrow> jsnum \<Rightarrow> string \<Rightarrow> predicate" where
  "discover_pred h minRating minReviews maxReviews excludeSentiment = (\<lambda>p.
     let r = coalesce (get p ''rating'') (JNum (Fin 0));
         v = coalesce (get p ''rating_count'') (JNum (Fin 0));
         s = js_or (get p ''sentiment_label_ar'') (JStr [])
     in Inr (js_ge (ToNumber h r) minRating \<and> js_ge (ToNumber h v) minReviews \<and>
             js_le (ToNumber h v) maxReviews \<and> s \<noteq> JStr excludeSentiment))"

definition mustGo_pred :: "host \<Rightarrow> jsnum \<Rightarrow> jsnum \<Rightarrow> string \<Rightarrow> predicate" where
  "mustGo_pred h minBayes minReviews excludeSentiment = (\<lambda>p.
     let b2 = coalesce (get p ''bayes2_score'') (JNum (Fin 0.50));
         v = coalesce (get p ''rating_count'') (JNum (Fin 0));
         s = js_or (get p ''sentiment_label_ar'') (JStr [])
     in Inr (js_ge (ToNumber h b2) minBayes \<and> js_ge (ToNumber h v) minReviews \<and>
             s \<noteq> JStr excludeSentiment))"

definition topRated_pred :: "host \<Rightarrow> jsnum \<Rightarrow> jsnum \<Rightarrow> predicate" where
  "topRated_pred h minRating minReviews = (\<lambda>p.
     let r = coalesce (get p ''rating'') (JNum (Fin 0));
         v = coalesce (get p ''rating_count'') (JNum (Fin 0))
     in Inr (js_ge (ToNumber h r) minRating \<and> js_ge (ToNumber h v) minReviews))"

definition raqi_pred :: "host \<Rightarrow> string \<Rightarrow> predicate" where
  "raqi_pred h searchTerm = (\<lambda>p.
     case haystack h '' '' p of
       Inl e \<Rightarrow> Inl e
     | Inr hay \<Rightarrow> Inr (str_includes (toLowerCase hay) searchTerm))"

text \<open>
  The body of the \<open>try\<close> block of \<open>compilePredicate\<close>.  The patterns are tried in the
  order of the source: discover, must_go, top_rated, raqi.  A match always carries as many
  groups as its pattern has, so the last case of each \<open>case\<close> stands for \<open>null\<close>.
\<close>

definition compilePredicate_body :: "host \<Rightarrow> jsval \<Rightarrow> error + predicate" where
  "compilePredicate_body h codeStr =
     (let code = rule_text h codeStr
      in if code = [] \<or> code = ''return true;'' then Inr always_true
         else case js_match re_discover code of
           Some [g1, g2, g3, g4] \<Rightarrow>
             Inr (discover_pred h (parseFloat g1) (parseInt g2) (parseInt g3) g4)
         | _ \<Rightarrow>
         (case js_match re_mustGo code of
           Some [g1, g2, g3] \<Rightarrow> Inr (mustGo_pred h (parseFloat g1) (parseInt g2) g3)
         | _ \<Rightarrow>
         (case js_match re_topRated code of
           Some [g1, g2] \<Rightarrow> Inr (topRated_pred h (parseFloat g1) (parseInt g2))
         | _ \<Rightarrow>
         (case js_match re_raqi code of
           Some [g1] \<Rightarrow> Inr (raqi_pred h (toLowerCase g1))
         | _ \<Rightarrow> Inr always_true))))"

text \<open>\<open>compilePredicate\<close>: the \<open>catch\<close> clause turns any error of the body into the always-true predicate.\<close>

definition compilePredicate :: "host \<Rightarrow> jsval \<Rightarrow> error + predicate" where
  "compilePredicate h codeStr =
     (case compilePredicate_body h codeStr of Inl e \<Rightarrow> Inr always_true | Inr f \<Rightarrow> Inr f)"

definition allowedFields :: "string list" where
  "allowedFields = [''bayes2_score'', ''rating'', ''rating_count'', ''trust_score'']"

definition always_zero :: heat where
  "always_zero = (\<lambda>_. Fin 0)"

definition field_heat :: "host \<Rightarrow> string \<Rightarrow> jsnum \<Rightarrow> heat" where
  "field_heat h fieldName defaultValue = (\<lambda>p.
     let v = coalesce (get p fieldName) (JNum defaultValue);
         n = ToNumber h v
     in if isFinite n then n else Fin 0)"

definition compileHeat_body :: "host \<Rightarrow> jsval \<Rightarrow> error + heat" where
  "compileHeat_body h codeStr =
     (let code = rule_text h codeStr
      in if code = [] then Inr always_zero
         else case js_match re_heat code of
           Some [fieldName, d] \<Rightarrow>
             (let defaultValue = (if truthy (JNum (parseFloat d)) then parseFloat d else Fin 0)
              in if fieldName \<notin> set allowedFields then Inr always_zero
                 else Inr (field_heat h fieldName defaultValue))
         | _ \<Rightarrow> Inr always_zero)"

definition compileHeat :: "host \<Rightarrow> jsval \<Rightarrow> error + heat" where
  "compileHeat h codeStr =
     (case compileHeat_body h codeStr of Inl e \<Rightarrow> Inr always_zero | Inr f \<Rightarrow> Inr f)"

section \<open>Dataset normalizer\<close>

fun typeof :: "jsval \<Rightarrow> string" where
  "typeof JUndefined = ''undefined''"
| "typeof JNull = ''object''"
| "typeof (JBool _) = ''boolean''"
| "typeof (JNum _) = ''number''"
| "typeof (JStr _) = ''string''"
| "typeof (JArr _) = ''object''"
| "typeof (JObj _) = ''object''"

fun isArray :: "jsval \<Rightarrow> bool" where
  "isArray (JArr _) = True"
| "isArray _ = False"

text \<open>\<open>Number.isFinite(v)\<close>: a number that is neither \<open>NaN\<close> nor infinite.\<close>

fun Number_isFinite :: "jsval \<Rightarrow> bool" where
  "Number_isFinite (JNum n) = isFinite n"
| "Number_isFinite _ = False"

datatype place_check = Valid | Invalid string

text \<open>
  \<open>validatePlaceData\<close>.  A row without a name is only reported on the console, which
  the model leaves out.
\<close>

definition validatePlaceData :: "host \<Rightarrow> jsval \<Rightarrow> place_check" where
  "validatePlaceData h p =
     (if \<not> truthy p \<or> typeof p \<noteq> ''object'' then Invalid ''not_an_object''
      else if \<not> truthy (field p ''place_id'') \<and> \<not> truthy (field p ''id'') \<and>
              \<not> truthy (field p ''gid'')
      then Invalid ''missing_id''
      else
        let lat = ToNumber h (coalesce (field p ''lat'') (field p ''latitude''));
            lng = ToNumber h (coalesce (field p ''lng'') (field p ''longitude''))
        in if \<not> isFinite lat \<or> \<not> isFinite lng then Invalid ''invalid_coordinates''
           else if js_lt lat (Fin (- 90)) \<or> js_gt lat (Fin 90) \<or>
                   js_lt lng (Fin (- 180)) \<or> js_gt lng (Fin 180)
           then Invalid ''coordinates_out_of_range''
           else Valid)"

datatype api_validation =
    ApiInvalid string
  | ApiValid "jsval list" "nat option"

text \<open>
  \<open>validateAPIResponse\<close>: \<open>ApiValid results filtered\<close> stands for
  \<open>{valid: true, results, filtered}\<close>, the count being absent for an empty list.  The
  loop keeps the valid rows in order and counts the others.  Nothing in the \<open>try\<close>
  block throws on a decoded JSON value, so its \<open>catch\<close> clause has no case here.
\<close>

definition validate_loop :: "host \<Rightarrow> jsval list \<Rightarrow> jsval list \<times> nat" where
  "validate_loop h rows =
     foldl (\<lambda>(validResults, invalidTotal) place.
              if validatePlaceData h place = Valid then (validResults @ [place], invalidTotal)
              else (validResults, invalidTotal + 1))
           ([], 0) rows"

definition validateAPIResponse :: "host \<Rightarrow> jsval \<Rightarrow> api_validation" where
  "validateAPIResponse h payload =
     (if \<not> truthy payload \<or> typeof payload \<noteq> ''object'' then ApiInvalid ''Invalid response format''
      else case field payload ''results'' of
        JArr rows \<Rightarrow>
          if rows = [] then ApiValid [] None
          else (case validate_loop h rows of
                  (validResults, invalidTotal) \<Rightarrow> ApiValid validResults (Some invalidTotal))
      | _ \<Rightarrow> ApiInvalid ''Missing results array'')"

text \<open>
  The two labels written in the source as string literals outside ASCII, byte for byte as
  they stand in the file: the "all" choice of the sentiment and price menus, and the
  default sentiment of a row.
\<close>

definition LABEL_ALL :: string where
  "LABEL_ALL = [CHR 0xC3, CHR 0xBF, CHR 0xC3, CHR 0x9F, CHR 0xC5, CHR 0xB8, CHR 0xC3, CHR 0x91,
                CHR 0xC5, CHR 0xB8, CHR 0xC3, CHR 0x89, CHR 0xC5, CHR 0xB8, CHR 0xC3, CHR 0x91]"

definition LABEL_NEUTRAL :: string where
  "LABEL_NEUTRAL = [CHR 0xC5, CHR 0xB8, CHR 0xC3, CHR 0x96, CHR 0xC3, CHR 0xBF, CHR 0xE2, CHR 0x89,
                    CHR 0xA0, CHR 0xC3, CHR 0xBF, CHR 0xC3, CHR 0x9F, CHR 0xC5, CHR 0xB8, CHR 0xC3,
                    CHR 0xA4, CHR 0xC3, CHR 0xBF, CHR 0xC3, CHR 0x98]"

text \<open>
  The record built for one validated row in \<open>loadRealPlacesAndBootstrapUI\<close>;
  \<open>rnd\<close> is the value \<open>Math.random()\<close> would return for this row.
\<close>

definition normalizePlace :: "host \<Rightarrow> jsnum \<Rightarrow> jsval \<Rightarrow> obj" where
  "normalizePlace h rnd p =
     (let tags = (if isArray (field p ''tags'') then field p ''tags''
                  else if isArray (field p ''tags_ar'') then field p ''tags_ar''
                  else if isArray (field p ''top_tags'') then field p ''top_tags''
                  else JArr []);
          district = js_or (js_or (field p ''district'') (field p ''district_ar'')) (JStr ''all'');
          district_slug_ar = js_or (field p ''district_slug_ar'') (JStr []);
          category = js_or (js_or (js_or (field p ''category'') (field p ''primary_type''))
                                  (field p ''primary_type_display_name'')) (JStr ''other'');
          sentiment = js_or (js_or (field p ''sentiment_label_ar'') (field p ''sentiment''))
                            (JStr LABEL_NEUTRAL);
          price = js_or (js_or (field p ''price_level'') (field p ''price''))
                        (JStr LABEL_ALL);
          reviews = JNum (ToNumber h (coalesce (coalesce (coalesce (field p ''rating_count'')
                      (field p ''user_ratings_total'')) (field p ''reviews'')) (JNum (Fin 0))));
          trust = JNum (ToNumber h (coalesce (coalesce (field p ''bayes2_score'')
                      (field p ''trust'')) (JNum (Fin 0))))
      in [(''id'', js_or (js_or (js_or (field p ''place_id'') (field p ''id'')) (field p ''gid''))
                         (JStr (ToString h (JNum rnd)))),
          (''place_id'', js_or (field p ''place_id'') (field p ''id'')),
          (''name'', js_or (field p ''name'') (JStr [])),
          (''district'', district),
          (''district_slug_ar'', district_slug_ar),
          (''category'', category),
          (''sentiment'', sentiment),
          (''price'', price),
          (''rating'', JNum (ToNumber h (coalesce (field p ''rating'') (JNum (Fin 0))))),
          (''reviews'', reviews),
          (''rating_count'', reviews),
          (''trust'', trust),
          (''bayes2_score'', trust),
          (''sentiment_label_ar'', sentiment),
          (''price_level'', price),
          (''price_bucket_ar'', js_or (field p ''price_bucket_ar'') (JStr [])),
          (''lat'', JNum (ToNumber h (coalesce (field p ''lat'') (field p ''latitude'')))),
          (''lng'', JNum (ToNumber h (coalesce (field p ''lng'') (field p ''longitude'')))),
          (''tags'', (case tags of JArr ts \<Rightarrow> JArr (map (\<lambda>t. JStr (ToString h t)) ts) | _ \<Rightarrow> JArr [])),
          (''summary'', js_or (field p ''summary'') (JStr [])),
          (''link'', js_or (field p ''link'') (JStr [])),
          (''pros_ar'', if isArray (field p ''pros_ar'') then field p ''pros_ar'' else JArr [])])"

text \<open>
  The working dataset \<open>DATA\<close> after \<open>loadRealPlacesAndBootstrapUI\<close> has received
  \<open>payload\<close>: empty when the response is invalid, else one record per validated row.
  \<open>rnd i\<close> is the random draw for the row at position \<open>i\<close>.
\<close>

definition loadRealPlaces :: "host \<Rightarrow> (nat \<Rightarrow> jsnum) \<Rightarrow> jsval \<Rightarrow> obj list" where
  "loadRealPlaces h rnd payload =
     (case validateAPIResponse h payload of
        ApiInvalid e \<Rightarrow> []
      | ApiValid results filtered \<Rightarrow>
          map (\<lambda>(i, p). normalizePlace h (rnd i) p) (enumerate 0 results))"

section \<open>Similarity results\<close>

definition similar_keep :: "host \<Rightarrow> jsval \<Rightarrow> jsval \<Rightarrow> bool" where
  "similar_keep h anchorId x =
     (truthy x \<and> truthy (js_or (field x ''place_id'') (field x ''id'')) \<and>
      ToString h (js_or (field x ''place_id'') (field x ''id'')) \<noteq> ToString h anchorId)"

definition similar_record :: "host \<Rightarrow> jsval \<Rightarrow> obj" where
  "similar_record h x =
     [(''id'', JStr (ToString h (js_or (field x ''place_id'') (field x ''id'')))),
      (''place_id'', JStr (ToString h (js_or (field x ''place_id'') (field x ''id'')))),
      (''name'', js_or (field x ''name'') (JStr [])),
      (''lat'', JNum (ToNumber h (field x ''lat''))),
      (''lng'', JNum (ToNumber h (field x ''lng''))),
      (''rating'', if \<not> nullish (field x ''rating'') then JNum (ToNumber h (field x ''rating'')) else JNull),
      (''rating_count'', if \<not> nullish (field x ''rating_count'')
                         then JNum (ToNumber h (field x ''rating_count'')) else JNull),
      (''bayes2_score'', if \<not> nullish (field x ''bayes2_score'')
                         then JNum (ToNumber h (field x ''bayes2_score'')) else JNull),
      (''sentiment_label_ar'', js_or (field x ''sentiment_label_ar'') (JStr [])),
      (''price_bucket_ar'', js_or (field x ''price_bucket_ar'') (JStr [])),
      (''tags'', if isArray (field x ''tags'') then field x ''tags'' else JArr []),
      (''summary'', js_or (field x ''summary'') (JStr [])),
      (''link'', js_or (field x ''link'') (JStr []))]"

text \<open>
  \<open>normalizeSimilarResults(arr, anchorId)\<close>: \<open>(arr || [])\<close> must be an array for
  \<open>filter\<close> to exist.
\<close>

definition normalizeSimilarResults :: "host \<Rightarrow> jsval \<Rightarrow> jsval \<Rightarrow> error + obj list" where
  "normalizeSimilarResults h arr anchorId =
     (case js_or arr (JArr []) of
        JArr xs \<Rightarrow>
          Inr (filter (\<lambda>p. Number_isFinite (get p ''lat'') \<and> Number_isFinite (get p ''lng''))
                 (map (similar_record h) (filter (similar_keep h anchorId) xs)))
      | _ \<Rightarrow> Inl TypeError)"

section \<open>Filter, sort and rank pipeline\<close>

record insight =
  key :: string
  predicate :: predicate
  sortSpec :: string
  heatFn :: "heat option"

record state =
  similarMode :: bool
  q :: string
  district :: string
  insight :: string
  categories :: "string list"
  sentiment :: string
  price :: string
  tags :: "string list"
  heatmap :: string

text \<open>\<open>INSIGHTS.find(x => x.key === state.insight) || INSIGHTS[0]\<close>; \<open>None\<close> is \<open>undefined\<close>.\<close>

definition pick_insight :: "insight list \<Rightarrow> string \<Rightarrow> insight option" where
  "pick_insight INSIGHTS k =
     (case find (\<lambda>x. key x = k) INSIGHTS of
        Some x \<Rightarrow> Some x
      | None \<Rightarrow> (case INSIGHTS of [] \<Rightarrow> None | x # _ \<Rightarrow> Some x))"

text \<open>\<open>sortBySpec(a, b, spec)\<close>\<close>

definition sortBySpec :: "host \<Rightarrow> obj \<Rightarrow> obj \<Rightarrow> jsval \<Rightarrow> jsnum" where
  "sortBySpec h a b spec =
     (let s = ToString h (js_or spec (JStr []))
      in if startsWith s ''desc:'' then
           (let f = drop 5 s in js_sub (num h (get b f)) (num h (get a f)))
         else if startsWith s ''asc:'' then
           (let f = drop 4 s in js_sub (num h (get a f)) (num h (get b f)))
         else if s = ''special:mustgo'' then
           (let d1 = js_sub (num h (get b ''bayes2_score'')) (num h (get a ''bayes2_score''))
            in if truthy (JNum d1) then d1
               else let d2 = js_sub (num h (get b ''rating_count'')) (num h (get a ''rating_count''))
                    in if truthy (JNum d2) then d2
                       else js_sub (num h (get b ''rating'')) (num h (get a ''rating'')))
         else
           (let d = js_sub (num h (get b ''trust'')) (num h (get a ''trust''))
            in if truthy (JNum d) then d
               else js_sub (num h (get b ''rating_count'')) (num h (get a ''rating_count''))))"

text \<open>
  \<open>xs.sort(cmp)\<close>.  The language requires the sort to be stable and, for a comparator
  that is a consistent ordering, to return the elements in that order; the stable
  insertion sort computes this result.  \<open>x\<close> goes after \<open>y\<close> only when
  \<open>cmp(x, y) > 0\<close>.
\<close>

fun insert_sorted :: "('a \<Rightarrow> 'a \<Rightarrow> jsnum) \<Rightarrow> 'a \<Rightarrow> 'a list \<Rightarrow> 'a list" where
  "insert_sorted cmp x [] = [x]"
| "insert_sorted cmp x (y # ys) =
     (if js_gt (cmp x y) (Fin 0) then y # insert_sorted cmp x ys else x # y # ys)"

definition js_sort :: "('a \<Rightarrow> 'a \<Rightarrow> jsnum) \<Rightarrow> 'a list \<Rightarrow> 'a list" where
  "js_sort cmp xs = foldr (insert_sorted cmp) xs []"

text \<open>\<open>xs.filter(f)\<close> and \<open>xs.every(f)\<close> with a callback that may throw.\<close>

fun filterE :: "('a \<Rightarrow> error + bool) \<Rightarrow> 'a list \<Rightarrow> error + 'a list" where
  "filterE f [] = Inr []"
| "filterE f (x # xs) =
     (case f x of
        Inl e \<Rightarrow> Inl e
      | Inr b \<Rightarrow> (case filterE f xs of
                    Inl e \<Rightarrow> Inl e
                  | Inr ys \<Rightarrow> Inr (if b then x # ys else ys)))"

fun everyE :: "('a \<Rightarrow> error + bool) \<Rightarrow> 'a list \<Rightarrow> error + bool" where
  "everyE f [] = Inr True"
| "everyE f (x # xs) =
     (case f x of
        Inl e \<Rightarrow> Inl e
      | Inr b \<Rightarrow> if b then everyE f xs else Inr False)"

definition bindE :: "error + 'a \<Rightarrow> ('a \<Rightarrow> error + 'b) \<Rightarrow> error + 'b" where
  "bindE m f = (case m of Inl e \<Rightarrow> Inl e | Inr x \<Rightarrow> f x)"

text \<open>The tests of the seven stages, as written inside the guards of \<open>filterData\<close>.\<close>

definition district_test :: "state \<Rightarrow> obj \<Rightarrow> error + bool" where
  "district_test st p =
     Inr (if district st = ''all'' then True else get p ''district'' = JStr (district st))"

text \<open>\<open>state.categories\<close> is a set of strings: \<open>has(v)\<close> holds for a string in it.\<close>

definition category_test :: "state \<Rightarrow> obj \<Rightarrow> error + bool" where
  "category_test st p =
     Inr (if ''all'' \<in> set (categories st) then True
          else (case get p ''category'' of JStr c \<Rightarrow> c \<in> set (categories st) | _ \<Rightarrow> False))"

definition text_test :: "host \<Rightarrow> state \<Rightarrow> obj \<Rightarrow> error + bool" where
  "text_test h st p =
     (let ql = toLowerCase (q st)
      in if ql = [] then Inr True
         else case haystack h '' '' p of
                Inl e \<Rightarrow> Inl e
              | Inr hay \<Rightarrow> Inr (str_includes (toLowerCase hay) ql))"

definition sentiment_test :: "state \<Rightarrow> obj \<Rightarrow> error + bool" where
  "sentiment_test st p =
     Inr (if sentiment st = LABEL_ALL then True else get p ''sentiment'' = JStr (sentiment st))"

definition price_test :: "state \<Rightarrow> obj \<Rightarrow> error + bool" where
  "price_test st p =
     Inr (if price st = LABEL_ALL then True else get p ''price'' = JStr (price st))"

text \<open>
  \<open>(p.tags || []).includes(t)\<close> for a string \<open>t\<close>: membership in an array, substring
  of a string; no other value has \<open>includes\<close>.
\<close>

definition tags_includes :: "obj \<Rightarrow> string \<Rightarrow> error + bool" where
  "tags_includes p t =
     (case js_or (get p ''tags'') (JArr []) of
        JArr xs \<Rightarrow> Inr (JStr t \<in> set xs)
      | JStr s \<Rightarrow> Inr (str_includes s t)
      | _ \<Rightarrow> Inl TypeError)"

definition tags_test :: "state \<Rightarrow> obj \<Rightarrow> error + bool" where
  "tags_test st p =
     (if length (tags st) = 0 then Inr True else everyE (tags_includes p) (tags st))"

text \<open>The guard \<open>state.similarMode ? true : ...\<close> of the first three stages.\<close>

definition unless_similar :: "state \<Rightarrow> (obj \<Rightarrow> error + bool) \<Rightarrow> obj \<Rightarrow> error + bool" where
  "unless_similar st f p = (if similarMode st then Inr True else f p)"

text \<open>
  \<open>filterData(rows)\<close>, with the globals \<open>INSIGHTS\<close> and \<open>state\<close> as arguments.
  Reading \<open>predicate\<close> from \<open>undefined\<close>, when \<open>INSIGHTS\<close> is empty, is a
  \<open>TypeError\<close>.
\<close>

definition filterData :: "host \<Rightarrow> insight list \<Rightarrow> state \<Rightarrow> obj list \<Rightarrow> error + obj list" where
  "filterData h INSIGHTS st rows =
     (case pick_insight INSIGHTS (insight st) of
        None \<Rightarrow> Inl TypeError
      | Some insightObj \<Rightarrow>
          bindE (filterE (unless_similar st (district_test st)) rows) (\<lambda>r1.
          bindE (filterE (unless_similar st (category_test st)) r1) (\<lambda>r2.
          bindE (filterE (unless_similar st (predicate insightObj)) r2) (\<lambda>r3.
          bindE (filterE (text_test h st) r3) (\<lambda>r4.
          bindE (filterE (sentiment_test st) r4) (\<lambda>r5.
          bindE (filterE (price_test st) r5) (\<lambda>r6.
          bindE (filterE (tags_test st) r6) (\<lambda>r7.
          Inr (js_sort (\<lambda>a b. sortBySpec h a b (JStr (sortSpec insightObj))) r7)))))))))"

section \<open>Heat weight evaluator\<close>

text \<open>The weight function \<open>updateHeatLayer\<close> uses when the insight has no \<open>heatFn\<close>.\<close>

definition default_weight :: "host \<Rightarrow> obj \<Rightarrow> jsnum" where
  "default_weight h p =
     (let b2 = ToNumber h (coalesce (get p ''bayes2_score'') (JNum (Fin 0)));
          v = ToNumber h (coalesce (get p ''rating_count'') (JNum (Fin 0)));
          nv = Math_max (Fin 0) (Math_min (Fin 1) (js_div v (Fin 500)))
      in Math_max (Fin 0) (Math_min (Fin 1) (js_add (js_mul (Fin 0.65) b2) (js_mul (Fin 0.35) nv))))"

definition weightFn :: "host \<Rightarrow> insight list \<Rightarrow> state \<Rightarrow> heat" where
  "weightFn h INSIGHTS st =
     (case pick_insight INSIGHTS (insight st) of
        None \<Rightarrow> default_weight h
      | Some insightObj \<Rightarrow>
          (case heatFn insightObj of Some f \<Rightarrow> f | None \<Rightarrow> default_weight h))"

text \<open>
  The list \<open>pts\<close> that \<open>updateHeatLayer(places)\<close> hands to the heat layer, one triple
  of latitude, longitude and weight per place with finite coordinates; none when the
  heatmap is off.  The map and layer objects are outside the model.
\<close>

definition heat_point :: "host \<Rightarrow> heat \<Rightarrow> obj \<Rightarrow> (jsnum \<times> jsnum \<times> jsnum) list" where
  "heat_point h weigh p =
     (let lat = ToNumber h (get p ''lat'');
          lng = ToNumber h (get p ''lng'')
      in if \<not> isFinite lat \<or> \<not> isFinite lng then []
         else let w = weigh p in [(lat, lng, if isFinite w then w else Fin 0.2)])"

definition updateHeatLayer :: "host \<Rightarrow> insight list \<Rightarrow> state \<Rightarrow> obj list \<Rightarrow> (jsnum \<times> jsnum \<times> jsnum) list" where
  "updateHeatLayer h INSIGHTS st places =
     (if heatmap st = ''Off'' then []
      else concat (map (heat_point h (weightFn h INSIGHTS st)) places))"

section \<open>Auxiliary definitions for the statements\<close>

text \<open>The number of capturing groups of a pattern.\<close>

definition ngroups :: "atom list \<Rightarrow> nat" where
  "ngroups re = length (filter (\<lambda>a. snd (snd a)) re)"

text \<open>
  A host to run the examples with.  It reads a string of decimal digits as that whole
  number and an empty or blank string as zero, and it prints a whole number that is not
  negative by its decimal digits; the examples convert nothing else.
\<close>

function show_nat :: "nat \<Rightarrow> string" where
  "show_nat n = (if n < 10 then [char_of (48 + n)] else show_nat (n div 10) @ [char_of (48 + n mod 10)])"
  by pat_completeness auto
termination
  by (relation "measure id") auto

definition sample_str_to_num :: "string \<Rightarrow> jsnum" where
  "sample_str_to_num s =
     (let t = trim s
      in if t = [] then Fin 0 else if list_all is_digit t then Fin (real (dec t)) else NaN)"

definition sample_num_to_str :: "jsnum \<Rightarrow> string" where
  "sample_num_to_str n =
     (case n of NaN \<Rightarrow> ''NaN'' | PInf \<Rightarrow> ''Infinity'' | NInf \<Rightarrow> ''-Infinity''
      | Fin r \<Rightarrow> show_nat (nat \<lfloor>r\<rfloor>))"

definition sample_host :: host where
  "sample_host = \<lparr> str_to_num = sample_str_to_num, num_to_str = sample_num_to_str \<rparr>"

text \<open>
  The rule of Scenario 2 in the syntax the compiler reads, and its two records.
\<close>

definition scenario2_rule :: string where
  "scenario2_rule =
     ''return r >= 4.1 && v >= 30 && v <= 180 && s !== '' @ [CHR 0x22] @ ''negative'' @ [CHR 0x22] @ '';''"

definition scenario2_record :: "real \<Rightarrow> obj" where
  "scenario2_record reviewCount =
     [(''rating'', JNum (Fin 4.3)), (''rating_count'', JNum (Fin reviewCount)),
      (''sentiment_label_ar'', JStr ''positive'')]"

text \<open>A rule of the trust-threshold shape, with threshold 0.45.\<close>

definition mustGo_rule :: string where
  "mustGo_rule =
     ''return b2 >= 0.45 && v >= 0 && s !== '' @ [CHR 0x22] @ ''negative'' @ [CHR 0x22] @ '';''"

text \<open>
  The conditions of the specification on a raw row: it has an identity when one of its
  three identity fields is set, and its coordinates, read the way the normalizer reads
  them, are good when both are finite and inside the geographic range.
\<close>

definition has_identity :: "jsval \<Rightarrow> bool" where
  "has_identity p = (truthy (field p ''place_id'') \<or> truthy (field p ''id'') \<or> truthy (field p ''gid''))"

definition row_lat :: "host \<Rightarrow> jsval \<Rightarrow> jsnum" where
  "row_lat h p = ToNumber h (coalesce (field p ''lat'') (field p ''latitude''))"

definition row_lng :: "host \<Rightarrow> jsval \<Rightarrow> jsnum" where
  "row_lng h p = ToNumber h (coalesce (field p ''lng'') (field p ''longitude''))"

definition in_bound :: "real \<Rightarrow> jsnum \<Rightarrow> bool" where
  "in_bound bound n = (case n of Fin x \<Rightarrow> - bound \<le> x \<and> x \<le> bound | _ \<Rightarrow> False)"

definition coords_ok :: "host \<Rightarrow> jsval \<Rightarrow> bool" where
  "coords_ok h p = (in_bound 90 (row_lat h p) \<and> in_bound 180 (row_lng h p))"

text \<open>A row on the boundary of the range, a row just outside it, and a response holding both.\<close>

definition row_at :: "real \<Rightarrow> real \<Rightarrow> jsval" where
  "row_at lat lng = JObj [(''id'', JStr ''a''), (''lat'', JNum (Fin lat)), (''lng'', JNum (Fin lng))]"

definition sample_payload :: jsval where
  "sample_payload = JObj [(''results'', JArr [row_at 90 180, row_at 90.0001 180])]"

text \<open>The row of the anchor \<open>''z''\<close> in a similarity response.\<close>

definition anchor_row :: jsval where
  "anchor_row = JObj [(''place_id'', JStr ''z''), (''lat'', JNum (Fin 24)), (''lng'', JNum (Fin 46))]"




text \<open>
  The insight \<open>all\<close> that the source always puts first, an insight whose heat rule reads
  the review count, a state with the heatmap on, and a place with a negative score.
\<close>

definition all_insight :: insight where
  "all_insight = \<lparr> key = ''all'', predicate = always_true, sortSpec = ''desc:bayes2_score'',
                   heatFn = None \<rparr>"

definition count_heat_rule :: string where
  "count_heat_rule = ''return (p.rating_count ?? 0);''"


definition heat_state :: "string \<Rightarrow> state" where
  "heat_state k = \<lparr> similarMode = False, q = [], district = ''all'', insight = k,
                     categories = [''all''], sentiment = LABEL_ALL, price = LABEL_ALL, tags = [],
                     heatmap = ''On'' \<rparr>"


text \<open>The real number that \<open>num\<close> reads from the field \<open>k\<close> of a record.\<close>

definition field_num :: "host \<Rightarrow> obj \<Rightarrow> string \<Rightarrow> real" where
  "field_num h a k = (case num h (get a k) of Fin r \<Rightarrow> r | _ \<Rightarrow> 0)"

text \<open>A record with the given score, review count and rating.\<close>

definition scored :: "real \<Rightarrow> real \<Rightarrow> real \<Rightarrow> obj" where
  "scored t v r =
     [(''bayes2_score'', JNum (Fin t)), (''trust'', JNum (Fin t)),
      (''rating_count'', JNum (Fin v)), (''rating'', JNum (Fin r))]"

text \<open>
  The conditions of the seven stages as the specification words them, on a record whose
  \<open>tags\<close> are an array or missing, as the records of both normalizers are: the
  lower-cased text of name, tags, category and district contains the lower-cased query;
  sentiment and price equal the selected ones unless the selection is "all"; every
  selected tag is among the tags of the record; the district equals the selected one
  unless that is \<open>all\<close>; the category is among the selected ones unless \<open>all\<close> is.
\<close>

definition tags_are_array :: "obj \<Rightarrow> bool" where
  "tags_are_array p = isArray (js_or (get p ''tags'') (JArr []))"

definition tag_list :: "obj \<Rightarrow> jsval list" where
  "tag_list p = (case js_or (get p ''tags'') (JArr []) of JArr xs \<Rightarrow> xs | _ \<Rightarrow> [])"

definition search_text :: "host \<Rightarrow> obj \<Rightarrow> string" where
  "search_text h p =
     toLowerCase
       (ToString h (get p ''name'') @ '' '' @
        join '' '' (map (\<lambda>x. if nullish x then [] else ToString h x) (tag_list p)) @ '' '' @
        ToString h (get p ''category'') @ '' '' @ ToString h (get p ''district''))"

definition text_match :: "host \<Rightarrow> state \<Rightarrow> obj \<Rightarrow> bool" where
  "text_match h st p =
     (toLowerCase (q st) = [] \<or> str_includes (search_text h p) (toLowerCase (q st)))"

definition sentiment_match :: "state \<Rightarrow> obj \<Rightarrow> bool" where
  "sentiment_match st p = (sentiment st = LABEL_ALL \<or> get p ''sentiment'' = JStr (sentiment st))"

definition price_match :: "state \<Rightarrow> obj \<Rightarrow> bool" where
  "price_match st p = (price st = LABEL_ALL \<or> get p ''price'' = JStr (price st))"

definition tags_match :: "state \<Rightarrow> obj \<Rightarrow> bool" where
  "tags_match st p = list_all (\<lambda>t. JStr t \<in> set (tag_list p)) (tags st)"

definition district_match :: "state \<Rightarrow> obj \<Rightarrow> bool" where
  "district_match st p = (district st = ''all'' \<or> get p ''district'' = JStr (district st))"

definition category_match :: "state \<Rightarrow> obj \<Rightarrow> bool" where
  "category_match st p =
     (''all'' \<in> set (categories st) \<or> get p ''category'' \<in> JStr ` set (categories st))"

text \<open>
  The state of Scenario 3: the district filter stands at \<open>downtown\<close>, the query is
  \<open>Cafe\<close>, and a sentiment, a price and a tag are selected; similarity mode is on or
  off.  Six records: the first has no district, the last has all that is asked for, and
  each of the others misses one of the query, the sentiment, the price and the tag.
\<close>

definition scenario3_state :: "bool \<Rightarrow> state" where
  "scenario3_state similar =
     \<lparr> similarMode = similar, q = ''Cafe'', district = ''downtown'', insight = ''all'',
       categories = [''all''], sentiment = ''good'', price = ''low'', tags = [''wifi''],
       heatmap = ''Off'' \<rparr>"

definition venue :: "string \<Rightarrow> jsval \<Rightarrow> string \<Rightarrow> string \<Rightarrow> string list \<Rightarrow> obj" where
  "venue name where feeling cost labels =
     [(''name'', JStr name), (''district'', where), (''sentiment'', JStr feeling),
      (''price'', JStr cost), (''tags'', JArr (map JStr labels))]"

definition scenario3_rows :: "obj list" where
  "scenario3_rows =
     [venue ''Cafe One'' JUndefined ''good'' ''low'' [''wifi''],
      venue ''Bar'' (JStr ''downtown'') ''good'' ''low'' [''wifi''],
      venue ''Cafe Two'' (JStr ''downtown'') ''bad'' ''low'' [''wifi''],
      venue ''Cafe Three'' (JStr ''downtown'') ''good'' ''high'' [''wifi''],
      venue ''Cafe Four'' (JStr ''downtown'') ''good'' ''low'' [''quiet''],
      venue ''Cafe Five'' (JStr ''downtown'') ''good'' ''low'' [''quiet'', ''wifi'']]"

text \<open>The records whose score is 0.9.\<close>

definition top_scored :: "obj \<Rightarrow> bool" where
  "top_scored p = (field_num sample_host p ''bayes2_score'' = 0.9)"

text \<open>
  The pattern anchored at both ends: the whole text, and not a part of it, has the shape
  of the pattern.
\<close>

fun rmatch_whole :: "atom list \<Rightarrow> string \<Rightarrow> string list option"
  and try_whole :: "bool \<Rightarrow> atom list \<Rightarrow> string \<Rightarrow> nat list \<Rightarrow> string list option" where
  "rmatch_whole [] s = (if s = [] then Some [] else None)"
| "rmatch_whole ((c, qu, cap) # r) s =
     try_whole cap r s (counts qu (length (takeWhile (cls_mem c) s)))"
| "try_whole cap r s [] = None"
| "try_whole cap r s (k # ks) =
     orelse (map_option (keep cap (take k s)) (rmatch_whole r (drop k s))) (try_whole cap r s ks)"

text \<open>A heat rule that divides the field it reads, and a record with 350 reviews.\<close>

definition divided_heat_rule :: string where
  "divided_heat_rule = ''return (p.rating_count ?? 0) / 500;''"

definition busy_place :: obj where
  "busy_place = [(''rating_count'', JNum (Fin 350))]"

text \<open>
  The two review-count bounds of a rule text, \<open>v >= N\<close> and \<open>v <= N\<close>, and a rule that
  has both and nothing about the sentiment.
\<close>

definition re_lower_bound :: "atom list" where
  "re_lower_bound = lits ''v'' @ ws @ lits ''>='' @ ws @ grp Digit"

definition re_upper_bound :: "atom list" where
  "re_upper_bound = lits ''v'' @ ws @ lits ''<='' @ ws @ grp Digit"

definition range_only_rule :: string where
  "range_only_rule = ''return r >= 4.1 && v >= 30 && v <= 180;''"




section \<open>Properties of the pattern matcher\<close>

lemma orelse_weak_cong: "a = a' \<Longrightarrow> orelse a b = orelse a' b"
  by simp

lemma orelse_Some: "orelse (Some x) b = Some x"
  by (simp add: orelse_def)

lemma orelse_None: "orelse None b = b"
  by (simp add: orelse_def)

lemmas re_defs =
  re_heat_def re_discover_def re_topRated_def re_mustGo_def re_raqi_def
  lits_def ws_def grp_def quote_def

lemmas cls_defs = is_space_def is_digit_def is_word_def is_quote_def

lemmas match_simps = orelse_Some orelse_None keep_def re_defs cls_defs

lemma orelse_eq_Some: "orelse a b = Some x \<longleftrightarrow> a = Some x \<or> (a = None \<and> b = Some x)"
  by (cases a) (auto simp: orelse_def)

lemma orelse_is_Some: "(\<exists>x. orelse a b = Some x) \<longleftrightarrow> (\<exists>x. a = Some x) \<or> (\<exists>x. b = Some x)"
  by (cases a) (auto simp: orelse_def)

text \<open>A match carries one string for each capturing group of the pattern.\<close>

lemma rmatch_groups:
  "rmatch re s = Some gs \<Longrightarrow> length gs = ngroups re"
  "try_counts cap r s ks = Some gs \<Longrightarrow> length gs = (if cap then 1 else 0) + ngroups r"
proof (induction re s and cap r s ks arbitrary: gs and gs rule: rmatch_try_counts.induct)
  case (1 s)
  then show ?case by (simp add: ngroups_def)
next
  case (2 c q cap r s)
  then show ?case by (simp add: ngroups_def)
next
  case (3 cap r s)
  then show ?case by simp
next
  case (4 cap r s k ks)
  then show ?case by (auto simp: orelse_eq_Some keep_def)
qed

lemma js_match_groups: "js_match re s = Some gs \<Longrightarrow> length gs = ngroups re"
  by (induction re s rule: js_match.induct) (auto simp: orelse_eq_Some rmatch_groups)

lemma ngroups_simps:
  "ngroups re_discover = 4" "ngroups re_mustGo = 3" "ngroups re_topRated = 2"
  "ngroups re_raqi = 1" "ngroups re_heat = 2"
  by (simp_all add: ngroups_def re_defs)

lemma length_1E: "length gs = Suc 0 \<Longrightarrow> \<exists>a. gs = [a]"
  by (cases gs) auto

lemma length_2E: "length gs = 2 \<Longrightarrow> \<exists>a b. gs = [a, b]"
  by (cases gs) (auto simp: length_Suc_conv)

lemma length_3E: "length gs = 3 \<Longrightarrow> \<exists>a b c. gs = [a, b, c]"
  by (cases gs) (auto simp: length_Suc_conv numeral_3_eq_3)

lemma length_4E: "length gs = 4 \<Longrightarrow> \<exists>a b c d. gs = [a, b, c, d]"
  by (cases gs) (auto simp: length_Suc_conv numeral_Bit0 numeral_3_eq_3)

text \<open>Where a pattern matches, so does each of its prefixes.\<close>

lemma try_counts_prefix:
  assumes IH: "\<And>s gs. rmatch (r1 @ r2) s = Some gs \<Longrightarrow> \<exists>gs'. rmatch r1 s = Some gs'"
  shows "try_counts cap (r1 @ r2) s ks = Some gs \<Longrightarrow> \<exists>gs'. try_counts cap r1 s ks = Some gs'"
proof (induction ks arbitrary: gs)
  case Nil
  then show ?case by simp
next
  case (Cons k ks)
  from Cons.prems
  have "(\<exists>g. rmatch (r1 @ r2) (drop k s) = Some g) \<or> (\<exists>g. try_counts cap (r1 @ r2) s ks = Some g)"
    by (auto simp: orelse_eq_Some)
  then have "(\<exists>g. rmatch r1 (drop k s) = Some g) \<or> (\<exists>g. try_counts cap r1 s ks = Some g)"
    using IH Cons.IH by blast
  then show ?case
    by (auto simp: orelse_is_Some)
qed

lemma rmatch_prefix:
  "rmatch (r1 @ r2) s = Some gs \<Longrightarrow> \<exists>gs'. rmatch r1 s = Some gs'"
proof (induction r1 arbitrary: s gs)
  case Nil
  then show ?case by simp
next
  case (Cons a r1)
  obtain c q cap where a: "a = (c, q, cap)" by (cases a) auto
  from Cons.prems a
  have "try_counts cap (r1 @ r2) s (counts q (length (takeWhile (cls_mem c) s))) = Some gs"
    by simp
  from try_counts_prefix[OF Cons.IH this] a show ?case by simp
qed

lemma js_match_prefix:
  "js_match (r1 @ r2) s = Some gs \<Longrightarrow> \<exists>gs'. js_match r1 s = Some gs'"
proof (induction s arbitrary: gs)
  case Nil
  then show ?case using rmatch_prefix by simp
next
  case (Cons c s)
  from Cons.prems
  have "(\<exists>g. rmatch (r1 @ r2) (c # s) = Some g) \<or> (\<exists>g. js_match (r1 @ r2) s = Some g)"
    by (auto simp: orelse_eq_Some)
  then have "(\<exists>g. rmatch r1 (c # s) = Some g) \<or> (\<exists>g. js_match r1 s = Some g)"
    using rmatch_prefix Cons.IH by blast
  then show ?case by (auto simp: orelse_is_Some)
qed

lemma discover_implies_topRated:
  "js_match re_discover s = Some gs \<Longrightarrow> \<exists>gs'. js_match re_topRated s = Some gs'"
  unfolding re_discover_def by (rule js_match_prefix)

lemma no_match_empty:
  "js_match re_discover [] = None" "js_match re_mustGo [] = None"
  by (simp_all add: match_simps cong: orelse_weak_cong)

lemma no_match_return_true:
  "js_match re_discover ''return true;'' = None" "js_match re_mustGo ''return true;'' = None"
  by (simp_all add: match_simps cong: orelse_weak_cong)

lemma rule_text_JStr: "rule_text h (JStr s) = trim s"
  by (simp add: rule_text_def js_or_def trim_def)

lemmas parse_simps = parseFloat_def parseInt_def dec_def digit_val_def is_digit_def

lemmas re_defs2 = re_lower_bound_def re_upper_bound_def
section \<open>The rule compiler\<close>

lemma trim_ex1: "trim ''return p.rating > 4;'' = ''return p.rating > 4;''"
  by (simp add: trim_def is_space_def)

text \<open>
  Claim C2.  For every rule text that matches none of the four patterns of
  \<open>compilePredicate\<close>, the compiled predicate is the one that answers true for every
  record (fail-open); and for every input, \<open>compilePredicate\<close> returns a predicate and
  raises nothing to its caller.
\<close>

theorem compilePredicate_fail_open:
  "(js_match re_discover (rule_text h codeStr) = None \<and>
    js_match re_mustGo (rule_text h codeStr) = None \<and>
    js_match re_topRated (rule_text h codeStr) = None \<and>
    js_match re_raqi (rule_text h codeStr) = None
      \<longrightarrow> compilePredicate h codeStr = Inr always_true) \<and>
   always_true p = Inr True \<and>
   (\<exists>f. compilePredicate h other = Inr f)"
  by (auto simp: compilePredicate_def compilePredicate_body_def always_true_def Let_def
           split: sum.splits)

theorem compilePredicate_fail_open_witness:
  "js_match re_discover (rule_text sample_host (JStr ''return p.rating > 4;'')) = None \<and>
   js_match re_mustGo (rule_text sample_host (JStr ''return p.rating > 4;'')) = None \<and>
   js_match re_topRated (rule_text sample_host (JStr ''return p.rating > 4;'')) = None \<and>
   js_match re_raqi (rule_text sample_host (JStr ''return p.rating > 4;'')) = None \<and>
   compilePredicate sample_host (JStr ''return p.rating > 4;'') = Inr always_true \<and>
   always_true [(''rating'', JNum (Fin 1))] = Inr True"
proof -
  have "js_match re_discover (rule_text sample_host (JStr ''return p.rating > 4;'')) = None"
    unfolding rule_text_JStr trim_ex1 by (simp add: match_simps cong: orelse_weak_cong)
  moreover have "js_match re_mustGo (rule_text sample_host (JStr ''return p.rating > 4;'')) = None"
    unfolding rule_text_JStr trim_ex1 by (simp add: match_simps cong: orelse_weak_cong)
  moreover have "js_match re_topRated (rule_text sample_host (JStr ''return p.rating > 4;'')) = None"
    unfolding rule_text_JStr trim_ex1 by (simp add: match_simps cong: orelse_weak_cong)
  moreover have "js_match re_raqi (rule_text sample_host (JStr ''return p.rating > 4;'')) = None"
    unfolding rule_text_JStr trim_ex1 by (simp add: match_simps cong: orelse_weak_cong)
  ultimately show ?thesis
    using compilePredicate_fail_open [of sample_host "JStr ''return p.rating > 4;''"
        "[(''rating'', JNum (Fin 1))]" JNull]
    by simp
qed



lemma compileHeat_no_match:
  "js_match re_heat (rule_text h codeStr) = None \<Longrightarrow> compileHeat h codeStr = Inr always_zero"
  by (simp add: compileHeat_def compileHeat_body_def Let_def)

lemma compileHeat_not_allowed:
  "js_match re_heat (rule_text h codeStr) = Some [f, d] \<Longrightarrow> f \<notin> set allowedFields \<Longrightarrow>
   compileHeat h codeStr = Inr always_zero"
  by (simp add: compileHeat_def compileHeat_body_def Let_def)

lemma trim_ex2: "trim ''return p.randomField'' = ''return p.randomField''"
  by (simp add: trim_def is_space_def)

lemma heat_ex2: "js_match re_heat ''return p.randomField'' = None"
  by (simp add: match_simps cong: orelse_weak_cong)

lemma trim_ex3: "trim ''return (p.randomField ?? 0.5);'' = ''return (p.randomField ?? 0.5);''"
  by (simp add: trim_def is_space_def)

lemma heat_ex3: "js_match re_heat ''return (p.randomField ?? 0.5);'' = Some [''randomField'', ''0.5'']"
  by (simp add: match_simps cong: orelse_weak_cong)

lemma divided_trim: "trim divided_heat_rule = divided_heat_rule"
  by (simp add: trim_def is_space_def divided_heat_rule_def)

lemma divided_match:
  "js_match re_heat divided_heat_rule = Some [''rating_count'', ''0'']"
  "rmatch_whole re_heat divided_heat_rule = None"
  by (simp_all add: divided_heat_rule_def match_simps cong: orelse_weak_cong)

lemma count_rule_whole:
  "rmatch_whole re_heat count_heat_rule = Some [''rating_count'', ''0'']"
  by (simp add: count_heat_rule_def match_simps cong: orelse_weak_cong)

lemma no_heat_match_empty: "js_match re_heat [] = None"
  by (simp add: match_simps cong: orelse_weak_cong)

lemma compileHeat_allowed:
  assumes "js_match re_heat (rule_text h codeStr) = Some [f, d]" and "f \<in> set allowedFields"
  shows "compileHeat h codeStr =
           Inr (field_heat h f (if truthy (JNum (parseFloat d)) then parseFloat d else Fin 0))"
proof -
  have "rule_text h codeStr \<noteq> []" using assms(1) no_heat_match_empty by auto
  with assms show ?thesis
    by (simp add: compileHeat_def compileHeat_body_def Let_def)
qed

text \<open>
  Claim C3 says that every heat rule text that is not the field-read-with-default shape is
  compiled to the weight function that is 0 on every record.  It is not: the pattern is
  looked for anywhere in the text, so a rule that divides the field it reads, which as a
  whole does not have that shape, is compiled to the reader of the field, and the weight
  of a record with 350 reviews is 350.
\<close>

theorem compileHeat_counterexample:
  "rmatch_whole re_heat (rule_text sample_host (JStr divided_heat_rule)) = None \<and>
   compileHeat sample_host (JStr divided_heat_rule)
     = Inr (field_heat sample_host ''rating_count'' (Fin 0)) \<and>
   field_heat sample_host ''rating_count'' (Fin 0) busy_place = Fin 350"
proof -
  have m: "js_match re_heat (rule_text sample_host (JStr divided_heat_rule))
             = Some [''rating_count'', ''0'']"
    by (simp only: rule_text_JStr divided_trim divided_match)
  have a: "''rating_count'' \<in> set allowedFields" by (simp add: allowedFields_def)
  have c: "compileHeat sample_host (JStr divided_heat_rule)
     = Inr (field_heat sample_host ''rating_count'' (Fin 0))"
    using compileHeat_allowed[OF m a] by (simp add: parse_simps)
  have f: "field_heat sample_host ''rating_count'' (Fin 0) busy_place = Fin 350"
    by (simp add: field_heat_def busy_place_def get_def coalesce_def nullish_def Let_def)
  from c f show ?thesis
    by (simp add: rule_text_JStr divided_trim divided_match)
qed

text \<open>
  Claim C3, amended.  For every heat rule text in which the field-read-with-default
  pattern occurs nowhere, or in which its first occurrence reads a field outside the
  whitelist, \<open>compileHeat\<close> returns the weight function that is 0 on every record
  (fail-closed); so does the text \<open>return p.randomField\<close>.  A text in which the first
  occurrence of the pattern reads a whitelisted field is compiled to the reader of that
  field, whatever else the text holds.
\<close>

theorem compileHeat_fail_closed:
  "(js_match re_heat (rule_text h codeStr) = None \<or>
    (\<exists>f d. js_match re_heat (rule_text h codeStr) = Some [f, d] \<and> f \<notin> set allowedFields)
      \<longrightarrow> compileHeat h codeStr = Inr always_zero) \<and>
   always_zero p = Fin 0 \<and>
   compileHeat h (JStr ''return p.randomField'') = Inr always_zero \<and>
   (js_match re_heat (rule_text h codeStr) = Some [f, d] \<and> f \<in> set allowedFields
      \<longrightarrow> compileHeat h codeStr =
            Inr (field_heat h f (if truthy (JNum (parseFloat d)) then parseFloat d else Fin 0)))"
proof -
  have "compileHeat h (JStr ''return p.randomField'') = Inr always_zero"
    by (rule compileHeat_no_match) (simp only: rule_text_JStr trim_ex2 heat_ex2)
  then show ?thesis
    using compileHeat_allowed
    by (auto simp: compileHeat_no_match compileHeat_not_allowed always_zero_def)
qed

theorem compileHeat_fail_closed_witness:
  "js_match re_heat (rule_text sample_host (JStr ''return (p.randomField ?? 0.5);''))
     = Some [''randomField'', ''0.5''] \<and>
   ''randomField'' \<notin> set allowedFields \<and>
   compileHeat sample_host (JStr ''return (p.randomField ?? 0.5);'') = Inr always_zero \<and>
   always_zero [(''randomField'', JNum (Fin 7))] = Fin 0 \<and>
   js_match re_heat (rule_text sample_host (JStr divided_heat_rule)) = Some [''rating_count'', ''0''] \<and>
   ''rating_count'' \<in> set allowedFields \<and>
   compileHeat sample_host (JStr divided_heat_rule)
     = Inr (field_heat sample_host ''rating_count'' (Fin 0))"
proof -
  have m: "js_match re_heat (rule_text sample_host (JStr ''return (p.randomField ?? 0.5);''))
     = Some [''randomField'', ''0.5'']"
    by (simp only: rule_text_JStr trim_ex3 heat_ex3)
  have a: "''randomField'' \<notin> set allowedFields" "''rating_count'' \<in> set allowedFields"
    by (simp_all add: allowedFields_def)
  have m2: "js_match re_heat (rule_text sample_host (JStr divided_heat_rule))
             = Some [''rating_count'', ''0'']"
    by (simp only: rule_text_JStr divided_trim divided_match)
  have z: "(if truthy (JNum (parseFloat ''0'')) then parseFloat ''0'' else Fin 0) = Fin 0"
    by (simp add: parse_simps)
  have c1: "compileHeat sample_host (JStr ''return (p.randomField ?? 0.5);'') = Inr always_zero \<and>
      always_zero [(''randomField'', JNum (Fin 7))] = Fin 0"
    using m a(1)
      compileHeat_fail_closed [of sample_host "JStr ''return (p.randomField ?? 0.5);''"
        "[(''randomField'', JNum (Fin 7))]" "''randomField''" "''0.5''"]
    by blast
  have c2: "compileHeat sample_host (JStr divided_heat_rule)
     = Inr (field_heat sample_host ''rating_count'' (Fin 0))"
    using m2 a(2) z
      compileHeat_fail_closed [of sample_host "JStr divided_heat_rule" "[]"
        "''rating_count''" "''0''"]
    by simp
  from m a m2 c1 c2 show ?thesis by blast
qed

lemma compile_discover:
  assumes "js_match re_discover (rule_text h codeStr) = Some gs"
  shows "\<exists>g1 g2 g3 g4. gs = [g1, g2, g3, g4] \<and>
           compilePredicate h codeStr =
             Inr (discover_pred h (parseFloat g1) (parseInt g2) (parseInt g3) g4)"
proof -
  from js_match_groups[OF assms] have "length gs = 4" by (simp add: ngroups_simps)
  then obtain g1 g2 g3 g4 where gs: "gs = [g1, g2, g3, g4]" using length_4E by blast
  have ne: "rule_text h codeStr \<noteq> []" "rule_text h codeStr \<noteq> ''return true;''"
    using assms no_match_empty(1) no_match_return_true(1) by auto
  show ?thesis
    using assms gs ne
    by (simp add: compilePredicate_def compilePredicate_body_def Let_def)
qed

lemma compile_mustGo:
  assumes "js_match re_discover (rule_text h codeStr) = None"
    and "js_match re_mustGo (rule_text h codeStr) = Some gs"
  shows "\<exists>g1 g2 g3. gs = [g1, g2, g3] \<and>
           compilePredicate h codeStr = Inr (mustGo_pred h (parseFloat g1) (parseInt g2) g3)"
proof -
  from js_match_groups[OF assms(2)] have "length gs = 3" by (simp add: ngroups_simps)
  then obtain g1 g2 g3 where gs: "gs = [g1, g2, g3]" using length_3E by blast
  have ne: "rule_text h codeStr \<noteq> []" "rule_text h codeStr \<noteq> ''return true;''"
    using assms(2) no_match_empty(2) no_match_return_true(2) by auto
  show ?thesis
    using assms gs ne
    by (simp add: compilePredicate_def compilePredicate_body_def Let_def)
qed

lemma scenario2_trim: "trim scenario2_rule = scenario2_rule"
  by (simp add: trim_def is_space_def scenario2_rule_def)

lemma scenario2_match:
  "js_match re_discover scenario2_rule = Some [''4.1'', ''30'', ''180'', ''negative'']"
  by (simp add: scenario2_rule_def match_simps cong: orelse_weak_cong)


lemma scenario2_numbers:
  "parseFloat ''4.1'' = Fin 4.1" "parseInt ''30'' = Fin 30" "parseInt ''180'' = Fin 180"
  by (simp_all add: parse_simps)

lemma scenario2_compiled:
  "compilePredicate h (JStr scenario2_rule) = Inr (discover_pred h (Fin 4.1) (Fin 30) (Fin 180) ''negative'')"
proof -
  have "js_match re_discover (rule_text h (JStr scenario2_rule))
          = Some [''4.1'', ''30'', ''180'', ''negative'']"
    by (simp only: rule_text_JStr scenario2_trim scenario2_match)
  from compile_discover[OF this] show ?thesis
    using scenario2_numbers by auto
qed

lemma scenario2_eval:
  "discover_pred h (Fin 4.1) (Fin 30) (Fin 180) ''negative'' (scenario2_record 100) = Inr True"
  "discover_pred h (Fin 4.1) (Fin 30) (Fin 180) ''negative'' (scenario2_record 500) = Inr False"
  "topRated_pred h (Fin 4.1) (Fin 30) (scenario2_record 500) = Inr True"
  by (simp_all add: discover_pred_def topRated_pred_def scenario2_record_def get_def
        coalesce_def nullish_def js_or_def js_ge_def)

lemma range_only_trim: "trim range_only_rule = range_only_rule"
  by (simp add: trim_def is_space_def range_only_rule_def)

lemma range_only_match:
  "js_match re_lower_bound range_only_rule = Some [''30'']"
  "js_match re_upper_bound range_only_rule = Some [''180'']"
  "js_match re_discover range_only_rule = None"
  "js_match re_mustGo range_only_rule = None"
  "js_match re_topRated range_only_rule = Some [''4.1'', ''30'']"
  by (simp_all add: range_only_rule_def re_defs2 match_simps cong: orelse_weak_cong)

text \<open>
  Claim C8 says that every rule text with a lower and an upper bound on the review count
  is compiled as the range-capped (discover) shape.  It is not: the discover pattern also
  asks for the sentiment clause, so a rule with both bounds and no such clause is compiled
  as the rating-threshold shape, and its predicate accepts a record with 500 reviews.
\<close>

theorem discover_counterexample:
  "js_match re_lower_bound (rule_text sample_host (JStr range_only_rule)) = Some [''30''] \<and>
   js_match re_upper_bound (rule_text sample_host (JStr range_only_rule)) = Some [''180''] \<and>
   compilePredicate sample_host (JStr range_only_rule)
     = Inr (topRated_pred sample_host (Fin 4.1) (Fin 30)) \<and>
   topRated_pred sample_host (Fin 4.1) (Fin 30) (scenario2_record 500) = Inr True"
proof -
  have ne: "range_only_rule \<noteq> []" "range_only_rule \<noteq> ''return true;''"
    by (simp_all add: range_only_rule_def)
  have "compilePredicate sample_host (JStr range_only_rule)
     = Inr (topRated_pred sample_host (Fin 4.1) (Fin 30))"
    by (simp add: compilePredicate_def compilePredicate_body_def rule_text_JStr range_only_trim
          range_only_match ne scenario2_numbers Let_def)
  then show ?thesis
    by (simp add: rule_text_JStr range_only_trim range_only_match scenario2_eval)
qed

text \<open>
  Claim C8, amended.  A rule text that the range-capped (discover) pattern matches, with
  its rating bound, its two bounds on the review count and its sentiment clause, is
  compiled to the discover predicate built from the four groups of that match, although
  the rating-threshold pattern matches the text as well.  The rule of Scenario 2 is
  compiled to the discover predicate with bounds 4.1, 30 and 180; it holds of the record
  with 100 reviews and fails on the same record with 500 reviews, which the threshold
  predicate would accept.
\<close>

theorem discover_shape_first:
  "(js_match re_discover (rule_text h codeStr) = Some gs \<longrightarrow>
      (\<exists>g1 g2 g3 g4. gs = [g1, g2, g3, g4] \<and>
         compilePredicate h codeStr =
           Inr (discover_pred h (parseFloat g1) (parseInt g2) (parseInt g3) g4)) \<and>
      (\<exists>gs'. js_match re_topRated (rule_text h codeStr) = Some gs')) \<and>
   compilePredicate h (JStr scenario2_rule) =
     Inr (discover_pred h (Fin 4.1) (Fin 30) (Fin 180) ''negative'') \<and>
   discover_pred h (Fin 4.1) (Fin 30) (Fin 180) ''negative'' (scenario2_record 100) = Inr True \<and>
   discover_pred h (Fin 4.1) (Fin 30) (Fin 180) ''negative'' (scenario2_record 500) = Inr False \<and>
   topRated_pred h (Fin 4.1) (Fin 30) (scenario2_record 500) = Inr True"
  using compile_discover discover_implies_topRated scenario2_compiled scenario2_eval
  by blast

theorem discover_shape_first_witness:
  "js_match re_discover (rule_text sample_host (JStr scenario2_rule))
     = Some [''4.1'', ''30'', ''180'', ''negative''] \<and>
   compilePredicate sample_host (JStr scenario2_rule) =
     Inr (discover_pred sample_host (parseFloat ''4.1'') (parseInt ''30'') (parseInt ''180'') ''negative'') \<and>
   (\<exists>gs'. js_match re_topRated (rule_text sample_host (JStr scenario2_rule)) = Some gs')"
proof -
  have m: "js_match re_discover (rule_text sample_host (JStr scenario2_rule))
          = Some [''4.1'', ''30'', ''180'', ''negative'']"
    by (simp only: rule_text_JStr scenario2_trim scenario2_match)
  show ?thesis
    using m discover_shape_first [of sample_host "JStr scenario2_rule"
        "[''4.1'', ''30'', ''180'', ''negative'']"]
    by auto
qed

lemma mustGo_missing:
  "nullish (get p ''bayes2_score'') \<Longrightarrow>
   mustGo_pred h B V S p =
     Inr (js_ge (Fin 0.5) B \<and>
          js_ge (ToNumber h (coalesce (get p ''rating_count'') (JNum (Fin 0)))) V \<and>
          js_or (get p ''sentiment_label_ar'') (JStr []) \<noteq> JStr S)"
  by (simp add: mustGo_pred_def coalesce_def Let_def)

lemma others_missing:
  "nullish (get p ''rating'') \<Longrightarrow>
   topRated_pred h R V p =
     Inr (js_ge (Fin 0) R \<and> js_ge (ToNumber h (coalesce (get p ''rating_count'') (JNum (Fin 0)))) V)"
  "nullish (get p ''rating'') \<Longrightarrow>
   discover_pred h R V V2 S p =
     Inr (js_ge (Fin 0) R \<and>
          js_ge (ToNumber h (coalesce (get p ''rating_count'') (JNum (Fin 0)))) V \<and>
          js_le (ToNumber h (coalesce (get p ''rating_count'') (JNum (Fin 0)))) V2 \<and>
          js_or (get p ''sentiment_label_ar'') (JStr []) \<noteq> JStr S)"
  by (simp_all add: topRated_pred_def discover_pred_def coalesce_def Let_def)

text \<open>
  Claim C10.  A rule text of the trust-threshold (must_go) shape is compiled to
  \<open>mustGo_pred\<close>, which puts 0.50 in place of a missing or null \<open>bayes2_score\<close>:
  its trust condition is then \<open>0.50 >= B\<close>, true whenever \<open>B \<le> 0.5\<close>.  The
  other two numeric shapes put 0 in place of a missing rating.
\<close>

theorem mustGo_default_half:
  "(js_match re_discover (rule_text h codeStr) = None \<and>
    js_match re_mustGo (rule_text h codeStr) = Some gs \<longrightarrow>
      (\<exists>g1 g2 g3. gs = [g1, g2, g3] \<and>
         compilePredicate h codeStr = Inr (mustGo_pred h (parseFloat g1) (parseInt g2) g3))) \<and>
   (nullish (get p ''bayes2_score'') \<longrightarrow>
      mustGo_pred h B V S p =
        Inr (js_ge (Fin 0.5) B \<and>
             js_ge (ToNumber h (coalesce (get p ''rating_count'') (JNum (Fin 0)))) V \<and>
             js_or (get p ''sentiment_label_ar'') (JStr []) \<noteq> JStr S)) \<and>
   (b \<le> 0.5 \<longrightarrow> js_ge (Fin 0.5) (Fin b)) \<and>
   (nullish (get p ''rating'') \<longrightarrow>
      topRated_pred h R V p =
        Inr (js_ge (Fin 0) R \<and>
             js_ge (ToNumber h (coalesce (get p ''rating_count'') (JNum (Fin 0)))) V)) \<and>
   (nullish (get p ''rating'') \<longrightarrow>
      discover_pred h R V V2 S p =
        Inr (js_ge (Fin 0) R \<and>
             js_ge (ToNumber h (coalesce (get p ''rating_count'') (JNum (Fin 0)))) V \<and>
             js_le (ToNumber h (coalesce (get p ''rating_count'') (JNum (Fin 0)))) V2 \<and>
             js_or (get p ''sentiment_label_ar'') (JStr []) \<noteq> JStr S))"
  using compile_mustGo mustGo_missing others_missing
  by (auto simp: js_ge_def)

lemma mustGo_trim: "trim mustGo_rule = mustGo_rule"
  by (simp add: trim_def is_space_def mustGo_rule_def)

lemma mustGo_match:
  "js_match re_discover mustGo_rule = None"
  "js_match re_mustGo mustGo_rule = Some [''0.45'', ''0'', ''negative'']"
  by (simp_all add: mustGo_rule_def match_simps cong: orelse_weak_cong)

lemma mustGo_numbers: "parseFloat ''0.45'' = Fin 0.45" "parseInt ''0'' = Fin 0"
  by (simp_all add: parse_simps)

theorem mustGo_default_half_witness:
  "js_match re_discover (rule_text sample_host (JStr mustGo_rule)) = None \<and>
   js_match re_mustGo (rule_text sample_host (JStr mustGo_rule)) = Some [''0.45'', ''0'', ''negative''] \<and>
   nullish (get [] ''bayes2_score'') \<and> nullish (get [] ''rating'') \<and> (0.45 :: real) \<le> 0.5 \<and>
   compilePredicate sample_host (JStr mustGo_rule) = Inr (mustGo_pred sample_host (Fin 0.45) (Fin 0) ''negative'') \<and>
   mustGo_pred sample_host (Fin 0.45) (Fin 0) ''negative'' [] = Inr True \<and>
   topRated_pred sample_host (Fin 0.45) (Fin 0) [] = Inr False \<and>
   discover_pred sample_host (Fin 0.45) (Fin 0) (Fin 9) ''negative'' [] = Inr False"
proof -
  have m: "js_match re_discover (rule_text sample_host (JStr mustGo_rule)) = None"
      "js_match re_mustGo (rule_text sample_host (JStr mustGo_rule)) = Some [''0.45'', ''0'', ''negative'']"
    by (simp_all only: rule_text_JStr mustGo_trim mustGo_match)
  have n: "nullish (get [] ''bayes2_score'')" "nullish (get [] ''rating'')"
    by (simp_all add: get_def nullish_def)
  have e: "js_ge (ToNumber sample_host (coalesce (get [] ''rating_count'') (JNum (Fin 0)))) (Fin 0)"
     "js_le (ToNumber sample_host (coalesce (get [] ''rating_count'') (JNum (Fin 0)))) (Fin 9)"
     "js_or (get [] ''sentiment_label_ar'') (JStr []) \<noteq> JStr ''negative''"
     "\<not> js_ge (Fin 0) (Fin 0.45)" "js_ge (Fin 0.5) (Fin 0.45)"
    by (simp_all add: get_def coalesce_def nullish_def js_or_def js_ge_def)
  show ?thesis
    using m n e mustGo_numbers
      mustGo_default_half [of sample_host "JStr mustGo_rule" "[''0.45'', ''0'', ''negative'']"
        "[]" "Fin 0.45" "Fin 0" "''negative''" "0.45" "Fin 0.45" "Fin 9"]
    by auto
qed
section \<open>The dataset normalizer\<close>


lemma js_lt_Fin [simp]: "js_lt (Fin x) (Fin y) = (x < y)"
  by (auto simp: js_lt_def)

lemma js_gt_Fin [simp]: "js_gt (Fin x) (Fin y) = (y < x)"
  by (auto simp: js_gt_def)

lemma isFinite_iff: "isFinite n \<longleftrightarrow> (\<exists>x. n = Fin x)"
  by (cases n) auto

lemma has_identity_object: "has_identity p \<Longrightarrow> truthy p \<and> typeof p = ''object''"
  by (cases p) (auto simp: has_identity_def)

lemma validatePlaceData_iff:
  "validatePlaceData h p = Valid \<longleftrightarrow> has_identity p \<and> coords_ok h p"
proof (cases "has_identity p")
  case False
  then show ?thesis
    by (auto simp: validatePlaceData_def has_identity_def Let_def)
next
  case True
  with has_identity_object have "truthy p" "typeof p = ''object''" by auto
  with True show ?thesis
    by (cases "row_lat h p"; cases "row_lng h p")
       (auto simp: validatePlaceData_def has_identity_def coords_ok_def in_bound_def Let_def
          row_lat_def row_lng_def)
qed

lemma validate_loop_acc:
  "foldl (\<lambda>(validResults, invalidTotal) place.
              if validatePlaceData h place = Valid then (validResults @ [place], invalidTotal)
              else (validResults, invalidTotal + 1))
         (acc, n) rows
   = (acc @ filter (\<lambda>p. validatePlaceData h p = Valid) rows,
      n + length (filter (\<lambda>p. validatePlaceData h p \<noteq> Valid) rows))"
  by (induction rows arbitrary: acc n) auto

lemma validate_loop_eq:
  "validate_loop h rows =
     (filter (\<lambda>p. validatePlaceData h p = Valid) rows,
      length (filter (\<lambda>p. validatePlaceData h p \<noteq> Valid) rows))"
  unfolding validate_loop_def by (simp add: validate_loop_acc)

lemma validateAPIResponse_results:
  "validateAPIResponse h payload = ApiValid results n \<Longrightarrow>
   \<exists>rows. field payload ''results'' = JArr rows \<and>
          results = filter (\<lambda>p. has_identity p \<and> coords_ok h p) rows"
  by (auto simp: validateAPIResponse_def validate_loop_eq validatePlaceData_iff
           split: if_splits jsval.splits)

lemma validateAPIResponse_object:
  "field payload ''results'' = JArr rows \<Longrightarrow>
   \<exists>n. validateAPIResponse h payload =
         ApiValid (filter (\<lambda>p. has_identity p \<and> coords_ok h p) rows) n"
  by (cases payload) (auto simp: validateAPIResponse_def validate_loop_eq validatePlaceData_iff)

lemma normalizePlace_coords:
  "get (normalizePlace h r p) ''lat'' = JNum (row_lat h p)"
  "get (normalizePlace h r p) ''lng'' = JNum (row_lng h p)"
  by (simp_all add: normalizePlace_def get_def row_lat_def row_lng_def Let_def)

lemma normalizePlace_id:
  "has_identity p \<Longrightarrow> truthy (get (normalizePlace h r p) ''id'')"
  by (auto simp: normalizePlace_def get_def has_identity_def js_or_def Let_def)

lemma loadRealPlaces_eq:
  "field payload ''results'' = JArr rows \<Longrightarrow>
   loadRealPlaces h rnd payload =
     map (\<lambda>(i, p). normalizePlace h (rnd i) p)
         (enumerate 0 (filter (\<lambda>p. has_identity p \<and> coords_ok h p) rows))"
  using validateAPIResponse_object[of payload rows h]
  by (auto simp: loadRealPlaces_def)

lemma loadRealPlaces_member:
  assumes "r \<in> set (loadRealPlaces h rnd payload)"
  shows "\<exists>i p. r = normalizePlace h (rnd i) p \<and> has_identity p \<and> coords_ok h p"
proof -
  obtain results n where v: "validateAPIResponse h payload = ApiValid results n"
    and r: "r \<in> set (map (\<lambda>(i, p). normalizePlace h (rnd i) p) (enumerate 0 results))"
  proof (cases "validateAPIResponse h payload")
    case (ApiInvalid e)
    with assms show ?thesis by (simp add: loadRealPlaces_def)
  next
    case (ApiValid results n)
    with assms that show ?thesis by (simp add: loadRealPlaces_def)
  qed
  from r obtain i p where "r = normalizePlace h (rnd i) p" "p \<in> set results"
    by (auto simp: in_set_enumerate_eq)
  with validateAPIResponse_results[OF v] show ?thesis by fastforce
qed

lemma loadRealPlaces_invariant:
  assumes "r \<in> set (loadRealPlaces h rnd payload)"
  shows "\<exists>lat lng. get r ''lat'' = JNum (Fin lat) \<and> - 90 \<le> lat \<and> lat \<le> 90 \<and>
                   get r ''lng'' = JNum (Fin lng) \<and> - 180 \<le> lng \<and> lng \<le> 180 \<and>
                   truthy (get r ''id'')"
proof -
  from loadRealPlaces_member[OF assms] obtain i p
    where r: "r = normalizePlace h (rnd i) p" and p: "has_identity p" "coords_ok h p" by blast
  from p(2) obtain lat lng where "row_lat h p = Fin lat" "- 90 \<le> lat" "lat \<le> 90"
      "row_lng h p = Fin lng" "- 180 \<le> lng" "lng \<le> 180"
    by (auto simp: coords_ok_def in_bound_def split: jsnum.splits)
  with r p(1) show ?thesis
    by (simp add: normalizePlace_coords normalizePlace_id)
qed

lemma boundary_rows:
  "validatePlaceData h (row_at 90 180) = Valid"
  "validatePlaceData h (row_at 90.0001 180) = Invalid ''coordinates_out_of_range''"
  by (simp_all add: validatePlaceData_def row_at_def get_def coalesce_def nullish_def Let_def)

text \<open>
  Claim C1.  After a places load, every record of the working dataset has finite
  coordinates with latitude in [-90, 90] and longitude in [-180, 180], and an id that is
  set.  A raw row is accepted exactly when it has an identity field and good coordinates,
  and the dataset holds one record for each accepted row and none for any other.  The row
  at latitude 90.0 and longitude 180.0 is accepted; the row at latitude 90.0001 is
  rejected.
\<close>

theorem working_dataset_valid:
  "(r \<in> set (loadRealPlaces h rnd payload) \<longrightarrow>
      (\<exists>lat lng. get r ''lat'' = JNum (Fin lat) \<and> - 90 \<le> lat \<and> lat \<le> 90 \<and>
                  get r ''lng'' = JNum (Fin lng) \<and> - 180 \<le> lng \<and> lng \<le> 180 \<and>
                  truthy (get r ''id''))) \<and>
   (validatePlaceData h p = Valid \<longleftrightarrow> has_identity p \<and> coords_ok h p) \<and>
   (field payload ''results'' = JArr rows \<longrightarrow>
      loadRealPlaces h rnd payload =
        map (\<lambda>(i, p). normalizePlace h (rnd i) p)
            (enumerate 0 (filter (\<lambda>p. has_identity p \<and> coords_ok h p) rows))) \<and>
   validatePlaceData h (row_at 90 180) = Valid \<and>
   validatePlaceData h (row_at 90.0001 180) = Invalid ''coordinates_out_of_range''"
  using loadRealPlaces_invariant validatePlaceData_iff loadRealPlaces_eq boundary_rows
  by blast

lemma sample_rows:
  "has_identity (row_at 90 180)" "coords_ok h (row_at 90 180)" "\<not> coords_ok h (row_at 90.0001 180)"
  by (simp_all add: has_identity_def coords_ok_def in_bound_def row_lat_def row_lng_def row_at_def
        get_def coalesce_def nullish_def)

theorem working_dataset_valid_witness:
  "field sample_payload ''results'' = JArr [row_at 90 180, row_at 90.0001 180] \<and>
   loadRealPlaces sample_host (\<lambda>i. Fin 0.5) sample_payload
     = [normalizePlace sample_host (Fin 0.5) (row_at 90 180)] \<and>
   normalizePlace sample_host (Fin 0.5) (row_at 90 180)
     \<in> set (loadRealPlaces sample_host (\<lambda>i. Fin 0.5) sample_payload) \<and>
   get (normalizePlace sample_host (Fin 0.5) (row_at 90 180)) ''lat'' = JNum (Fin 90) \<and>
   get (normalizePlace sample_host (Fin 0.5) (row_at 90 180)) ''lng'' = JNum (Fin 180) \<and>
   get (normalizePlace sample_host (Fin 0.5) (row_at 90 180)) ''id'' = JStr ''a''"
proof -
  have f: "field sample_payload ''results'' = JArr [row_at 90 180, row_at 90.0001 180]"
    by (simp add: sample_payload_def get_def)
  have l: "loadRealPlaces sample_host (\<lambda>i. Fin 0.5) sample_payload
     = [normalizePlace sample_host (Fin 0.5) (row_at 90 180)]"
    using f sample_rows
      working_dataset_valid [of "normalizePlace sample_host (Fin 0.5) (row_at 90 180)"
        sample_host "\<lambda>i. Fin 0.5" sample_payload "row_at 90 180"
        "[row_at 90 180, row_at 90.0001 180]"]
    by (simp add: enumerate_simps)
  have g: "get (normalizePlace sample_host (Fin 0.5) (row_at 90 180)) ''lat'' = JNum (Fin 90)"
    "get (normalizePlace sample_host (Fin 0.5) (row_at 90 180)) ''lng'' = JNum (Fin 180)"
    "get (normalizePlace sample_host (Fin 0.5) (row_at 90 180)) ''id'' = JStr ''a''"
    by (simp_all add: normalizePlace_def row_at_def get_def coalesce_def nullish_def js_or_def Let_def)
  from f l g show ?thesis by simp
qed
section \<open>Similarity results\<close>

lemma similar_record_fields:
  "get (similar_record h x) ''id'' = JStr (ToString h (js_or (field x ''place_id'') (field x ''id'')))"
  "get (similar_record h x) ''place_id'' = JStr (ToString h (js_or (field x ''place_id'') (field x ''id'')))"
  "get (similar_record h x) ''lat'' = JNum (ToNumber h (field x ''lat''))"
  "get (similar_record h x) ''lng'' = JNum (ToNumber h (field x ''lng''))"
  by (simp_all add: similar_record_def get_def)

lemma normalizeSimilarResults_array:
  "normalizeSimilarResults h (JArr xs) anchorId =
     Inr (filter (\<lambda>p. Number_isFinite (get p ''lat'') \<and> Number_isFinite (get p ''lng''))
            (map (similar_record h) (filter (similar_keep h anchorId) xs)))"
  by (simp add: normalizeSimilarResults_def js_or_def)

lemma row_at_fields:
  "field (row_at a b) ''id'' = JStr ''a''" "field (row_at a b) ''place_id'' = JUndefined"
  "field (row_at a b) ''gid'' = JUndefined"
  "field (row_at a b) ''lat'' = JNum (Fin a)" "field (row_at a b) ''lng'' = JNum (Fin b)"
  "field (row_at a b) ''latitude'' = JUndefined" "field (row_at a b) ''longitude'' = JUndefined"
  "truthy (row_at a b)" "typeof (row_at a b) = ''object''"
  by (simp_all add: row_at_def get_def)

lemma anchor_row_fields:
  "field anchor_row ''place_id'' = JStr ''z''" "truthy anchor_row"
  by (simp_all add: anchor_row_def get_def)

text \<open>
  Claim C9.  Every entry of the normalized similarity result set is to pass the geographic
  validation of the dataset normalizer: finite coordinates within the range.  The code
  checks that the coordinates are finite and leaves the range out.  For the response that
  holds one element with latitude 500 and the anchor \<open>z\<close>, the entry is retained with
  latitude 500, while \<open>validatePlaceData\<close> rejects the same row as out of range.
\<close>

theorem similar_results_out_of_range:
  "normalizeSimilarResults sample_host (JArr [row_at 500 0]) (JStr ''z'')
     = Inr [similar_record sample_host (row_at 500 0)] \<and>
   get (similar_record sample_host (row_at 500 0)) ''lat'' = JNum (Fin 500) \<and>
   validatePlaceData sample_host (row_at 500 0) = Invalid ''coordinates_out_of_range''"
  by (simp add: normalizeSimilarResults_array similar_record_fields similar_keep_def
        row_at_fields js_or_def validatePlaceData_def coalesce_def nullish_def Let_def)

theorem similar_results_out_of_range_witness:
  "normalizeSimilarResults sample_host (JArr [row_at 500 0]) (JStr ''z'')
     = Inr [similar_record sample_host (row_at 500 0)] \<and>
   has_identity (row_at 500 0) \<and> \<not> coords_ok sample_host (row_at 500 0)"
  using similar_results_out_of_range
  by (simp add: has_identity_def coords_ok_def in_bound_def row_lat_def row_lng_def
        row_at_fields coalesce_def nullish_def)

text \<open>
  The other checks of \<open>normalizeSimilarResults\<close> hold on every response array: an
  entry comes from an element whose \<open>place_id || id\<close> is set, carries the text of that
  value as its \<open>id\<close> and \<open>place_id\<close>, has finite \<open>lat\<close> and \<open>lng\<close>, and has
  an \<open>id\<close> other than the text of the anchor identifier.
\<close>

lemma similar_results_finite_distinct:
  "(\<exists>out. normalizeSimilarResults h (JArr xs) anchorId = Inr out) \<and>
   (normalizeSimilarResults h (JArr xs) anchorId = Inr out \<and> r \<in> set out \<longrightarrow>
      (\<exists>x \<in> set xs. truthy (js_or (field x ''place_id'') (field x ''id'')) \<and>
         get r ''id'' = JStr (ToString h (js_or (field x ''place_id'') (field x ''id''))) \<and>
         get r ''place_id'' = get r ''id'' \<and>
         get r ''lat'' = JNum (ToNumber h (field x ''lat'')) \<and>
         get r ''lng'' = JNum (ToNumber h (field x ''lng''))) \<and>
      (\<exists>lat lng. get r ''lat'' = JNum (Fin lat) \<and> get r ''lng'' = JNum (Fin lng)) \<and>
      get r ''id'' \<noteq> JStr (ToString h anchorId))"
proof -
  have "\<exists>out. normalizeSimilarResults h (JArr xs) anchorId = Inr out"
    by (simp add: normalizeSimilarResults_array)
  moreover
  { assume "normalizeSimilarResults h (JArr xs) anchorId = Inr out" and "r \<in> set out"
    then obtain x where x: "x \<in> set xs" "similar_keep h anchorId x" "r = similar_record h x"
      and fin: "Number_isFinite (get r ''lat'')" "Number_isFinite (get r ''lng'')"
      by (auto simp: normalizeSimilarResults_array)
    from fin x(3) obtain lat lng where
      "ToNumber h (field x ''lat'') = Fin lat" "ToNumber h (field x ''lng'') = Fin lng"
      by (auto simp: similar_record_fields isFinite_iff)
    with x have
      "(\<exists>x \<in> set xs. truthy (js_or (field x ''place_id'') (field x ''id'')) \<and>
         get r ''id'' = JStr (ToString h (js_or (field x ''place_id'') (field x ''id''))) \<and>
         get r ''place_id'' = get r ''id'' \<and>
         get r ''lat'' = JNum (ToNumber h (field x ''lat'')) \<and>
         get r ''lng'' = JNum (ToNumber h (field x ''lng''))) \<and>
      (\<exists>lat lng. get r ''lat'' = JNum (Fin lat) \<and> get r ''lng'' = JNum (Fin lng)) \<and>
      get r ''id'' \<noteq> JStr (ToString h anchorId)"
      by (auto simp: similar_record_fields similar_keep_def)
  }
  ultimately show ?thesis by blast
qed

lemma similar_results_example:
  "normalizeSimilarResults sample_host (JArr [anchor_row, row_at 24 46, JNull]) (JStr ''z'')
     = Inr [similar_record sample_host (row_at 24 46)] \<and>
   similar_record sample_host (row_at 24 46) \<in> set [similar_record sample_host (row_at 24 46)] \<and>
   get (similar_record sample_host (row_at 24 46)) ''id'' = JStr ''a'' \<and>
   get (similar_record sample_host (row_at 24 46)) ''lat'' = JNum (Fin 24) \<and>
   get (similar_record sample_host (row_at 24 46)) ''id'' \<noteq> JStr (ToString sample_host (JStr ''z''))"
proof -
  have n: "normalizeSimilarResults sample_host (JArr [anchor_row, row_at 24 46, JNull]) (JStr ''z'')
     = Inr [similar_record sample_host (row_at 24 46)]"
    by (simp add: normalizeSimilarResults_array similar_record_fields similar_keep_def
        row_at_fields anchor_row_fields js_or_def)
  have g: "get (similar_record sample_host (row_at 24 46)) ''id'' = JStr ''a''"
     "get (similar_record sample_host (row_at 24 46)) ''lat'' = JNum (Fin 24)"
    by (simp_all add: similar_record_fields row_at_fields js_or_def)
  show ?thesis
    using n g
      similar_results_finite_distinct [of sample_host "[anchor_row, row_at 24 46, JNull]" "JStr ''z''"
        "[similar_record sample_host (row_at 24 46)]" "similar_record sample_host (row_at 24 46)"]
    by simp
qed
section \<open>The heat weight evaluator\<close>






lemma heat_point_member:
  "(lat, lng, w) \<in> set (heat_point h weigh pl) \<Longrightarrow>
   isFinite lat \<and> isFinite lng \<and> w = (if isFinite (weigh pl) then weigh pl else Fin 0.2)"
  by (auto simp: heat_point_def Let_def split: if_splits)

lemma updateHeatLayer_member:
  assumes "(lat, lng, w) \<in> set (updateHeatLayer h INSIGHTS st places)"
  shows "\<exists>pl \<in> set places. isFinite lat \<and> isFinite lng \<and>
           w = (if isFinite (weightFn h INSIGHTS st pl) then weightFn h INSIGHTS st pl else Fin 0.2)"
proof -
  from assms obtain pl where "pl \<in> set places"
      "(lat, lng, w) \<in> set (heat_point h (weightFn h INSIGHTS st) pl)"
    by (auto simp: updateHeatLayer_def split: if_splits)
  with heat_point_member show ?thesis by blast
qed











section \<open>The comparators\<close>

lemma num_Fin: "num h v = Fin (case num h v of Fin r \<Rightarrow> r | _ \<Rightarrow> 0)"
  by (cases "ToNumber h (coalesce v (JNum (Fin 0)))") (simp_all add: num_def Let_def)

lemma num_field: "num h (get a k) = Fin (field_num h a k)"
  unfolding field_num_def by (rule num_Fin)

lemma num_zero:
  "num h JUndefined = Fin 0" "num h JNull = Fin 0"
  "\<not> isFinite (ToNumber h v) \<Longrightarrow> num h v = Fin 0"
  by (auto simp: num_def coalesce_def nullish_def Let_def)

lemma js_sub_Fin [simp]: "js_sub (Fin x) (Fin y) = Fin (x - y)"
  by (simp add: js_sub_def)

lemma truthy_Fin [simp]: "truthy (JNum (Fin x)) = (x \<noteq> 0)"
  by simp

lemma special_text: "ToString h (js_or (JStr ''special:mustgo'') (JStr [])) = ''special:mustgo''"
  by (simp add: js_or_def)

lemma sortBySpec_mustgo:
  "sortBySpec h a b (JStr ''special:mustgo'') =
     Fin (if field_num h b ''bayes2_score'' - field_num h a ''bayes2_score'' \<noteq> 0
          then field_num h b ''bayes2_score'' - field_num h a ''bayes2_score''
          else if field_num h b ''rating_count'' - field_num h a ''rating_count'' \<noteq> 0
          then field_num h b ''rating_count'' - field_num h a ''rating_count''
          else field_num h b ''rating'' - field_num h a ''rating'')"
  unfolding sortBySpec_def special_text
  by (simp add: num_field Let_def)

lemma sortBySpec_default:
  assumes "\<not> startsWith (ToString h (js_or spec (JStr []))) ''desc:''"
    and "\<not> startsWith (ToString h (js_or spec (JStr []))) ''asc:''"
    and "ToString h (js_or spec (JStr [])) \<noteq> ''special:mustgo''"
  shows "sortBySpec h a b spec =
     Fin (if field_num h b ''trust'' - field_num h a ''trust'' \<noteq> 0
          then field_num h b ''trust'' - field_num h a ''trust''
          else field_num h b ''rating_count'' - field_num h a ''rating_count'')"
  using assms unfolding sortBySpec_def
  by (simp add: num_field Let_def)

lemma sortBySpec_desc:
  assumes "startsWith (ToString h (js_or spec (JStr []))) ''desc:''"
  shows "sortBySpec h a b spec =
     Fin (field_num h b (drop 5 (ToString h (js_or spec (JStr []))))
          - field_num h a (drop 5 (ToString h (js_or spec (JStr [])))))"
  using assms unfolding sortBySpec_def
  by (simp add: num_field Let_def)

lemma sortBySpec_asc:
  assumes "\<not> startsWith (ToString h (js_or spec (JStr []))) ''desc:''"
    and "startsWith (ToString h (js_or spec (JStr []))) ''asc:''"
  shows "sortBySpec h a b spec =
     Fin (field_num h a (drop 4 (ToString h (js_or spec (JStr []))))
          - field_num h b (drop 4 (ToString h (js_or spec (JStr [])))))"
  using assms unfolding sortBySpec_def
  by (simp add: num_field Let_def)

lemma sortBySpec_Fin: "\<exists>d. sortBySpec h a b spec = Fin d"
proof (cases "startsWith (ToString h (js_or spec (JStr []))) ''desc:''")
  case True
  then show ?thesis using sortBySpec_desc by blast
next
  case nd: False
  show ?thesis
  proof (cases "startsWith (ToString h (js_or spec (JStr []))) ''asc:''")
    case True
    with nd show ?thesis using sortBySpec_asc by blast
  next
    case na: False
    show ?thesis
    proof (cases "ToString h (js_or spec (JStr [])) = ''special:mustgo''")
      case True
      then show ?thesis
        unfolding sortBySpec_def by (simp add: num_field Let_def)
    next
      case False
      with nd na show ?thesis using sortBySpec_default by blast
    qed
  qed
qed

text \<open>
  Claim C6.  For every pair of records \<open>a\<close> and \<open>b\<close>, the comparator of
  \<open>special:mustgo\<close> puts \<open>a\<close> first exactly when \<open>a\<close> has the higher trust
  score (\<open>bayes2_score\<close>), or the same score and more reviews, or the same score and
  reviews and the higher rating, and it returns 0 exactly when all three agree.  The
  comparator used when the directive is none of \<open>desc:\<close>, \<open>asc:\<close> and
  \<open>special:mustgo\<close> orders by descending trust score (\<open>trust\<close>), then by
  descending review count.  Every comparison returns a real number, never \<open>NaN\<close>:
  each field is read through \<open>num\<close>, which yields a real number, and 0 for a
  missing, null or non-finite value.
\<close>

theorem comparators_lexicographic:
  "(js_lt (sortBySpec h a b (JStr ''special:mustgo'')) (Fin 0) \<longleftrightarrow>
      field_num h b ''bayes2_score'' < field_num h a ''bayes2_score'' \<or>
      (field_num h b ''bayes2_score'' = field_num h a ''bayes2_score'' \<and>
        (field_num h b ''rating_count'' < field_num h a ''rating_count'' \<or>
         (field_num h b ''rating_count'' = field_num h a ''rating_count'' \<and>
          field_num h b ''rating'' < field_num h a ''rating'')))) \<and>
   (sortBySpec h a b (JStr ''special:mustgo'') = Fin 0 \<longleftrightarrow>
      field_num h b ''bayes2_score'' = field_num h a ''bayes2_score'' \<and>
      field_num h b ''rating_count'' = field_num h a ''rating_count'' \<and>
      field_num h b ''rating'' = field_num h a ''rating'') \<and>
   (\<not> startsWith (ToString h (js_or spec (JStr []))) ''desc:'' \<and>
    \<not> startsWith (ToString h (js_or spec (JStr []))) ''asc:'' \<and>
    ToString h (js_or spec (JStr [])) \<noteq> ''special:mustgo'' \<longrightarrow>
      (js_lt (sortBySpec h a b spec) (Fin 0) \<longleftrightarrow>
         field_num h b ''trust'' < field_num h a ''trust'' \<or>
         (field_num h b ''trust'' = field_num h a ''trust'' \<and>
          field_num h b ''rating_count'' < field_num h a ''rating_count'')) \<and>
      (sortBySpec h a b spec = Fin 0 \<longleftrightarrow>
         field_num h b ''trust'' = field_num h a ''trust'' \<and>
         field_num h b ''rating_count'' = field_num h a ''rating_count'')) \<and>
   (\<exists>d. sortBySpec h a b other = Fin d) \<and>
   num h (get a k) = Fin (field_num h a k) \<and>
   num h JUndefined = Fin 0 \<and> num h JNull = Fin 0 \<and>
   (\<not> isFinite (ToNumber h v) \<longrightarrow> num h v = Fin 0)"
proof -
  have m: "(js_lt (sortBySpec h a b (JStr ''special:mustgo'')) (Fin 0) \<longleftrightarrow>
      field_num h b ''bayes2_score'' < field_num h a ''bayes2_score'' \<or>
      (field_num h b ''bayes2_score'' = field_num h a ''bayes2_score'' \<and>
        (field_num h b ''rating_count'' < field_num h a ''rating_count'' \<or>
         (field_num h b ''rating_count'' = field_num h a ''rating_count'' \<and>
          field_num h b ''rating'' < field_num h a ''rating''))))"
    "(sortBySpec h a b (JStr ''special:mustgo'') = Fin 0 \<longleftrightarrow>
      field_num h b ''bayes2_score'' = field_num h a ''bayes2_score'' \<and>
      field_num h b ''rating_count'' = field_num h a ''rating_count'' \<and>
      field_num h b ''rating'' = field_num h a ''rating'')"
    unfolding sortBySpec_mustgo by (auto simp: js_lt_def)
  have d: "\<not> startsWith (ToString h (js_or spec (JStr []))) ''desc:'' \<and>
    \<not> startsWith (ToString h (js_or spec (JStr []))) ''asc:'' \<and>
    ToString h (js_or spec (JStr [])) \<noteq> ''special:mustgo'' \<longrightarrow>
      (js_lt (sortBySpec h a b spec) (Fin 0) \<longleftrightarrow>
         field_num h b ''trust'' < field_num h a ''trust'' \<or>
         (field_num h b ''trust'' = field_num h a ''trust'' \<and>
          field_num h b ''rating_count'' < field_num h a ''rating_count'')) \<and>
      (sortBySpec h a b spec = Fin 0 \<longleftrightarrow>
         field_num h b ''trust'' = field_num h a ''trust'' \<and>
         field_num h b ''rating_count'' = field_num h a ''rating_count'')"
    by (auto simp: sortBySpec_default js_lt_def)
  from m d show ?thesis
    using sortBySpec_Fin num_field num_zero by blast
qed

lemma field_num_scored:
  "field_num h (scored t v r) ''bayes2_score'' = t" "field_num h (scored t v r) ''trust'' = t"
  "field_num h (scored t v r) ''rating_count'' = v" "field_num h (scored t v r) ''rating'' = r"
  by (simp_all add: field_num_def scored_def get_def num_def coalesce_def nullish_def)

theorem comparators_lexicographic_witness:
  "\<not> startsWith (ToString sample_host (js_or JUndefined (JStr []))) ''desc:'' \<and>
   \<not> startsWith (ToString sample_host (js_or JUndefined (JStr []))) ''asc:'' \<and>
   ToString sample_host (js_or JUndefined (JStr [])) \<noteq> ''special:mustgo'' \<and>
   \<not> isFinite (ToNumber sample_host (JNum NaN)) \<and>
   js_lt (sortBySpec sample_host (scored 0.9 200 4.5) (scored 0.9 100 4.9) (JStr ''special:mustgo''))
         (Fin 0) \<and>
   js_lt (sortBySpec sample_host (scored 0.9 200 4.5) (scored 0.9 100 4.9) JUndefined) (Fin 0) \<and>
   num sample_host (JNum NaN) = Fin 0"
proof -
  have s: "ToString sample_host (js_or JUndefined (JStr [])) = []"
    by (simp add: js_or_def)
  show ?thesis
    using comparators_lexicographic [of sample_host "scored 0.9 200 4.5" "scored 0.9 100 4.9"
        JUndefined JUndefined "''rating''" "JNum NaN"]
    by (simp add: s field_num_scored)
qed
section \<open>The filter pipeline\<close>

lemma filterE_all: "(\<And>x. x \<in> set xs \<Longrightarrow> f x = Inr True) \<Longrightarrow> filterE f xs = Inr xs"
  by (induction xs) auto

lemma filterE_Inr:
  "filterE f xs = Inr ys \<Longrightarrow> ys = filter (\<lambda>x. f x = Inr True) xs"
proof (induction xs arbitrary: ys)
  case Nil
  then show ?case by simp
next
  case (Cons x xs)
  then show ?case
    by (auto split: sum.splits if_splits)
qed

lemma filterE_set:
  "filterE f xs = Inr ys \<Longrightarrow> set ys \<subseteq> set xs \<and> (\<forall>y \<in> set ys. f y = Inr True)"
  by (auto dest: filterE_Inr)

lemma unless_similar_on: "similarMode st \<Longrightarrow> unless_similar st f = (\<lambda>p. Inr True)"
  by (simp add: unless_similar_def fun_eq_iff)

lemma unless_similar_off: "\<not> similarMode st \<Longrightarrow> unless_similar st f = f"
  by (simp add: unless_similar_def fun_eq_iff)

lemma bindE_Inr [simp]: "bindE (Inr x) f = f x"
  by (simp add: bindE_def)

lemma bindE_Inl [simp]: "bindE (Inl e) f = Inl e"
  by (simp add: bindE_def)

text \<open>The stages of \<open>filterData\<close> in their order, with and without similarity mode.\<close>

lemma filterData_stages:
  "pick_insight INSIGHTS (insight st) = Some insightObj \<longrightarrow>
     (similarMode st \<longrightarrow>
        filterE (unless_similar st (district_test st)) rows = Inr rows \<and>
        filterE (unless_similar st (category_test st)) rows = Inr rows \<and>
        filterE (unless_similar st (predicate insightObj)) rows = Inr rows \<and>
        filterData h INSIGHTS st rows =
          bindE (filterE (text_test h st) rows) (\<lambda>r4.
          bindE (filterE (sentiment_test st) r4) (\<lambda>r5.
          bindE (filterE (price_test st) r5) (\<lambda>r6.
          bindE (filterE (tags_test st) r6) (\<lambda>r7.
          Inr (js_sort (\<lambda>a b. sortBySpec h a b (JStr (sortSpec insightObj))) r7)))))) \<and>
     (\<not> similarMode st \<longrightarrow>
        filterData h INSIGHTS st rows =
          bindE (filterE (district_test st) rows) (\<lambda>r1.
          bindE (filterE (category_test st) r1) (\<lambda>r2.
          bindE (filterE (predicate insightObj) r2) (\<lambda>r3.
          bindE (filterE (text_test h st) r3) (\<lambda>r4.
          bindE (filterE (sentiment_test st) r4) (\<lambda>r5.
          bindE (filterE (price_test st) r5) (\<lambda>r6.
          bindE (filterE (tags_test st) r6) (\<lambda>r7.
          Inr (js_sort (\<lambda>a b. sortBySpec h a b (JStr (sortSpec insightObj))) r7)))))))))"
  by (auto simp: filterData_def unless_similar_on unless_similar_off filterE_all)

lemma filterE_total:
  "(\<And>x. x \<in> set xs \<Longrightarrow> f x = Inr (P x)) \<Longrightarrow> filterE f xs = Inr (filter P xs)"
  by (induction xs) auto

lemma tags_are_array_list:
  "tags_are_array p \<Longrightarrow> js_or (get p ''tags'') (JArr []) = JArr (tag_list p)"
  by (cases "js_or (get p ''tags'') (JArr [])") (auto simp: tags_are_array_def tag_list_def)

lemma text_test_eq: "tags_are_array p \<Longrightarrow> text_test h st p = Inr (text_match h st p)"
  by (auto simp: text_test_def text_match_def search_text_def haystack_def tags_join_def
        tags_are_array_list nullish_def Let_def)

lemma sentiment_test_eq: "sentiment_test st p = Inr (sentiment_match st p)"
  by (auto simp: sentiment_test_def sentiment_match_def)

lemma price_test_eq: "price_test st p = Inr (price_match st p)"
  by (auto simp: price_test_def price_match_def)

lemma district_test_eq: "district_test st p = Inr (district_match st p)"
  by (auto simp: district_test_def district_match_def)

lemma category_test_eq: "category_test st p = Inr (category_match st p)"
  by (auto simp: category_test_def category_match_def split: jsval.splits)

lemma everyE_includes:
  "tags_are_array p \<Longrightarrow>
   everyE (tags_includes p) ts = Inr (list_all (\<lambda>t. JStr t \<in> set (tag_list p)) ts)"
  by (induction ts) (auto simp: tags_includes_def tags_are_array_list)

lemma tags_test_eq: "tags_are_array p \<Longrightarrow> tags_test st p = Inr (tags_match st p)"
  by (simp add: tags_test_def tags_match_def everyE_includes)

lemma total_predicate: "\<exists>b. f x = Inr b \<Longrightarrow> f x = Inr (f x = Inr True)"
  by auto

lemma normalized_tags:
  "tags_are_array (normalizePlace h r raw)" "tags_are_array (similar_record h raw)"
  by (auto simp: tags_are_array_def normalizePlace_def similar_record_def get_def js_or_def Let_def
           split: jsval.splits)

lemma filterData_similar:
  assumes pick: "pick_insight INSIGHTS (insight st) = Some insightObj"
    and arr: "\<forall>p \<in> set rows. tags_are_array p"
    and sim: "similarMode st"
  shows "filterData h INSIGHTS st rows =
     Inr (js_sort (\<lambda>a b. sortBySpec h a b (JStr (sortSpec insightObj)))
            (filter (\<lambda>p. text_match h st p \<and> sentiment_match st p \<and> price_match st p \<and>
                          tags_match st p) rows))"
proof -
  have 4: "filterE (text_test h st) rows = Inr (filter (text_match h st) rows)"
    using arr by (intro filterE_total) (simp add: text_test_eq)
  have 5: "filterE (sentiment_test st) xs = Inr (filter (sentiment_match st) xs)" for xs
    by (intro filterE_total) (simp add: sentiment_test_eq)
  have 6: "filterE (price_test st) xs = Inr (filter (price_match st) xs)" for xs
    by (intro filterE_total) (simp add: price_test_eq)
  have 7: "filterE (tags_test st) xs = Inr (filter (tags_match st) xs)"
    if "set xs \<subseteq> set rows" for xs
    using arr that by (intro filterE_total) (auto simp: tags_test_eq)
  have f: "filter (tags_match st) (filter (price_match st) (filter (sentiment_match st)
             (filter (text_match h st) rows)))
        = filter (\<lambda>p. text_match h st p \<and> sentiment_match st p \<and> price_match st p \<and>
                          tags_match st p) rows"
    by (simp add: conj_commute conj_left_commute)
  show ?thesis
    using pick sim filterData_stages[of INSIGHTS st insightObj rows h]
    by (simp add: 4 5 6 7 f)
qed

lemma filterData_normal:
  assumes pick: "pick_insight INSIGHTS (insight st) = Some insightObj"
    and arr: "\<forall>p \<in> set rows. tags_are_array p"
    and nsim: "\<not> similarMode st"
    and tot: "\<forall>p \<in> set rows. \<exists>b. predicate insightObj p = Inr b"
  shows "filterData h INSIGHTS st rows =
     Inr (js_sort (\<lambda>a b. sortBySpec h a b (JStr (sortSpec insightObj)))
            (filter (\<lambda>p. district_match st p \<and> category_match st p \<and>
                          predicate insightObj p = Inr True \<and>
                          text_match h st p \<and> sentiment_match st p \<and> price_match st p \<and>
                          tags_match st p) rows))"
proof -
  have 1: "filterE (district_test st) xs = Inr (filter (district_match st) xs)" for xs
    by (intro filterE_total) (simp add: district_test_eq)
  have 2: "filterE (category_test st) xs = Inr (filter (category_match st) xs)" for xs
    by (intro filterE_total) (simp add: category_test_eq)
  have 3: "filterE (predicate insightObj) xs = Inr (filter (\<lambda>p. predicate insightObj p = Inr True) xs)"
    if "set xs \<subseteq> set rows" for xs
    using tot that by (intro filterE_total total_predicate) auto
  have 4: "filterE (text_test h st) xs = Inr (filter (text_match h st) xs)"
    if "set xs \<subseteq> set rows" for xs
    using arr that by (intro filterE_total) (auto simp: text_test_eq)
  have 5: "filterE (sentiment_test st) xs = Inr (filter (sentiment_match st) xs)" for xs
    by (intro filterE_total) (simp add: sentiment_test_eq)
  have 6: "filterE (price_test st) xs = Inr (filter (price_match st) xs)" for xs
    by (intro filterE_total) (simp add: price_test_eq)
  have 7: "filterE (tags_test st) xs = Inr (filter (tags_match st) xs)"
    if "set xs \<subseteq> set rows" for xs
    using arr that by (intro filterE_total) (auto simp: tags_test_eq)
  have f: "filter (tags_match st) (filter (price_match st) (filter (sentiment_match st)
             (filter (text_match h st) (filter (\<lambda>p. predicate insightObj p = Inr True)
               (filter (category_match st) (filter (district_match st) rows))))))
        = filter (\<lambda>p. district_match st p \<and> category_match st p \<and>
                          predicate insightObj p = Inr True \<and>
                          text_match h st p \<and> sentiment_match st p \<and> price_match st p \<and>
                          tags_match st p) rows"
    by (simp add: conj_commute conj_left_commute)
  show ?thesis
    using pick nsim filterData_stages[of INSIGHTS st insightObj rows h]
    by (simp add: 1 2 3 4 5 6 7 f)
qed


lemma raqi_total: "tags_are_array p \<Longrightarrow> \<exists>b. raqi_pred h t p = Inr b"
  by (simp add: raqi_pred_def haystack_def tags_join_def tags_are_array_list)

lemma shapes_total:
  "\<exists>b. always_true p = Inr b" "\<exists>b. discover_pred h r v v2 s p = Inr b"
  "\<exists>b. mustGo_pred h r v s p = Inr b" "\<exists>b. topRated_pred h r v p = Inr b"
  by (auto simp: always_true_def discover_pred_def mustGo_pred_def topRated_pred_def Let_def)

lemma case_groups4:
  "(case m of Some [a, b, c, d] \<Rightarrow> F a b c d | _ \<Rightarrow> G) = R \<Longrightarrow>
   (\<exists>a b c d. R = F a b c d) \<or> R = G"
  by (auto split: option.splits list.splits)

lemma case_groups3:
  "(case m of Some [a, b, c] \<Rightarrow> F a b c | _ \<Rightarrow> G) = R \<Longrightarrow> (\<exists>a b c. R = F a b c) \<or> R = G"
  by (auto split: option.splits list.splits)

lemma case_groups2:
  "(case m of Some [a, b] \<Rightarrow> F a b | _ \<Rightarrow> G) = R \<Longrightarrow> (\<exists>a b. R = F a b) \<or> R = G"
  by (auto split: option.splits list.splits)

lemma case_groups1:
  "(case m of Some [a] \<Rightarrow> F a | _ \<Rightarrow> G) = R \<Longrightarrow> (\<exists>a. R = F a) \<or> R = G"
  by (auto split: option.splits list.splits)

lemma compiled_shapes:
  assumes "compilePredicate h codeStr = Inr f"
  shows "f = always_true \<or> (\<exists>r v v2 s. f = discover_pred h r v v2 s) \<or>
   (\<exists>r v s. f = mustGo_pred h r v s) \<or> (\<exists>r v. f = topRated_pred h r v) \<or>
   (\<exists>t. f = raqi_pred h t)"
proof -
  define code where "code = rule_text h codeStr"
  define R4 :: "error + predicate" where
    "R4 = (case js_match re_raqi code of
             Some [g1] \<Rightarrow> Inr (raqi_pred h (toLowerCase g1))
           | _ \<Rightarrow> Inr always_true)"
  define R3 where
    "R3 = (case js_match re_topRated code of
             Some [g1, g2] \<Rightarrow> Inr (topRated_pred h (parseFloat g1) (parseInt g2))
           | _ \<Rightarrow> R4)"
  define R2 where
    "R2 = (case js_match re_mustGo code of
             Some [g1, g2, g3] \<Rightarrow> Inr (mustGo_pred h (parseFloat g1) (parseInt g2) g3)
           | _ \<Rightarrow> R3)"
  define R1 where
    "R1 = (case js_match re_discover code of
             Some [g1, g2, g3, g4] \<Rightarrow>
               Inr (discover_pred h (parseFloat g1) (parseInt g2) (parseInt g3) g4)
           | _ \<Rightarrow> R2)"
  have body: "compilePredicate_body h codeStr =
      (if code = [] \<or> code = ''return true;'' then Inr always_true else R1)"
    by (simp only: compilePredicate_body_def Let_def code_def R1_def R2_def R3_def R4_def)
  have b: "compilePredicate_body h codeStr = Inr f \<or> f = always_true"
    using assms by (auto simp: compilePredicate_def split: sum.splits)
  have 4: "R4 = Inr f \<Longrightarrow> f = always_true \<or> (\<exists>t. f = raqi_pred h t)"
    using case_groups1[OF R4_def[symmetric]] by auto
  have 3: "R3 = Inr f \<Longrightarrow> (\<exists>r v. f = topRated_pred h r v) \<or> R4 = Inr f"
    using case_groups2[OF R3_def[symmetric]] by auto
  have 2: "R2 = Inr f \<Longrightarrow> (\<exists>r v s. f = mustGo_pred h r v s) \<or> R3 = Inr f"
    using case_groups3[OF R2_def[symmetric]] by auto
  have 1: "R1 = Inr f \<Longrightarrow> (\<exists>r v v2 s. f = discover_pred h r v v2 s) \<or> R2 = Inr f"
    using case_groups4[OF R1_def[symmetric]] by auto
  from b body have "f = always_true \<or> R1 = Inr f"
    by (auto split: if_splits)
  with 1 2 3 4 show ?thesis by blast
qed

lemma compiled_total:
  assumes "compilePredicate h codeStr = Inr f" and "tags_are_array p"
  shows "\<exists>b. f p = Inr b"
  using compiled_shapes[OF assms(1)] raqi_total[OF assms(2)] shapes_total by metis

text \<open>
  Claim C5.  For every input list whose records have arrays as tags, with similarity mode
  active \<open>filterData\<close> returns, sorted, exactly the records that pass the text,
  sentiment, price and tag conditions: the district, category and insight-predicate
  stages admit every record.  With similarity mode inactive it returns, sorted, exactly
  the records that pass all seven conditions.  On every input list the stages run in the
  order district, category, insight predicate, text, sentiment, price, tags, the first
  three being skipped in similarity mode.  The records of both normalizers have arrays as
  tags, and on such a record no compiled predicate raises an error.
\<close>

theorem similar_mode_bypass:
  "(pick_insight INSIGHTS (insight st) = Some insightObj \<and> (\<forall>p \<in> set rows. tags_are_array p) \<longrightarrow>
      (similarMode st \<longrightarrow>
         filterData h INSIGHTS st rows =
           Inr (js_sort (\<lambda>a b. sortBySpec h a b (JStr (sortSpec insightObj)))
                  (filter (\<lambda>p. text_match h st p \<and> sentiment_match st p \<and> price_match st p \<and>
                                tags_match st p) rows))) \<and>
      (\<not> similarMode st \<and> (\<forall>p \<in> set rows. \<exists>b. predicate insightObj p = Inr b) \<longrightarrow>
         filterData h INSIGHTS st rows =
           Inr (js_sort (\<lambda>a b. sortBySpec h a b (JStr (sortSpec insightObj)))
                  (filter (\<lambda>p. district_match st p \<and> category_match st p \<and>
                                predicate insightObj p = Inr True \<and>
                                text_match h st p \<and> sentiment_match st p \<and> price_match st p \<and>
                                tags_match st p) rows)))) \<and>
   (pick_insight INSIGHTS (insight st) = Some insightObj \<longrightarrow>
     (similarMode st \<longrightarrow>
        filterE (unless_similar st (district_test st)) rows = Inr rows \<and>
        filterE (unless_similar st (category_test st)) rows = Inr rows \<and>
        filterE (unless_similar st (predicate insightObj)) rows = Inr rows \<and>
        filterData h INSIGHTS st rows =
          bindE (filterE (text_test h st) rows) (\<lambda>r4.
          bindE (filterE (sentiment_test st) r4) (\<lambda>r5.
          bindE (filterE (price_test st) r5) (\<lambda>r6.
          bindE (filterE (tags_test st) r6) (\<lambda>r7.
          Inr (js_sort (\<lambda>a b. sortBySpec h a b (JStr (sortSpec insightObj))) r7)))))) \<and>
     (\<not> similarMode st \<longrightarrow>
        filterData h INSIGHTS st rows =
          bindE (filterE (district_test st) rows) (\<lambda>r1.
          bindE (filterE (category_test st) r1) (\<lambda>r2.
          bindE (filterE (predicate insightObj) r2) (\<lambda>r3.
          bindE (filterE (text_test h st) r3) (\<lambda>r4.
          bindE (filterE (sentiment_test st) r4) (\<lambda>r5.
          bindE (filterE (price_test st) r5) (\<lambda>r6.
          bindE (filterE (tags_test st) r6) (\<lambda>r7.
          Inr (js_sort (\<lambda>a b. sortBySpec h a b (JStr (sortSpec insightObj))) r7)))))))))) \<and>
   tags_are_array (normalizePlace h r raw) \<and> tags_are_array (similar_record h raw) \<and>
   (compilePredicate h codeStr = Inr f \<and> tags_are_array p \<longrightarrow> (\<exists>b. f p = Inr b))"
  using filterData_similar[of INSIGHTS st insightObj rows h]
    filterData_normal[of INSIGHTS st insightObj rows h]
    filterData_stages[of INSIGHTS st insightObj rows h] normalized_tags
    compiled_total[of h codeStr f p]
  by blast

lemma desc_score_text:
  "ToString h (js_or (JStr ''desc:bayes2_score'') (JStr [])) = ''desc:bayes2_score''"
  by (simp add: js_or_def)

lemma venue_fields:
  "get (venue n w f c ls) ''name'' = JStr n" "get (venue n w f c ls) ''district'' = w"
  "get (venue n w f c ls) ''sentiment'' = JStr f" "get (venue n w f c ls) ''price'' = JStr c"
  "get (venue n w f c ls) ''tags'' = JArr (map JStr ls)"
  "get (venue n w f c ls) ''category'' = JUndefined"
  "get (venue n w f c ls) ''bayes2_score'' = JUndefined"
  by (simp_all add: venue_def get_def)

lemma venue_tags:
  "tags_are_array (venue n w f c ls)" "tag_list (venue n w f c ls) = map JStr ls"
  by (simp_all add: tags_are_array_def tag_list_def venue_fields js_or_def)

lemma lower_chars:
  "lower_char CHR ''C'' = CHR ''c''" "lower_char CHR ''O'' = CHR ''o''"
  "lower_char CHR ''B'' = CHR ''b''" "lower_char CHR ''T'' = CHR ''t''"
  "lower_char CHR ''F'' = CHR ''f''"
  by code_simp+

lemma lower_cafe: "toLowerCase ''Cafe'' = ''cafe''"
  by (simp add: toLowerCase_def lower_chars) (simp add: lower_char_def)

lemma venue_search:
  "search_text h (venue ''Cafe One'' JUndefined f c [''wifi'']) = ''cafe one wifi undefined undefined''"
  "search_text h (venue ''Bar'' (JStr ''downtown'') f c [''wifi'']) = ''bar wifi undefined downtown''"
  "search_text h (venue ''Cafe Two'' (JStr ''downtown'') f c [''wifi''])
     = ''cafe two wifi undefined downtown''"
  "search_text h (venue ''Cafe Three'' (JStr ''downtown'') f c [''wifi''])
     = ''cafe three wifi undefined downtown''"
  "search_text h (venue ''Cafe Four'' (JStr ''downtown'') f c [''quiet''])
     = ''cafe four quiet undefined downtown''"
  "search_text h (venue ''Cafe Five'' (JStr ''downtown'') f c [''quiet'', ''wifi''])
     = ''cafe five quiet wifi undefined downtown''"
  by (simp_all add: search_text_def venue_fields venue_tags nullish_def toLowerCase_def lower_chars)
     (simp_all add: lower_char_def)

lemma sortBySpec_venue:
  "sortBySpec h (venue n w f c ls) (venue n' w' f' c' ls') (JStr ''desc:bayes2_score'') = Fin 0"
  by (simp add: sortBySpec_desc desc_score_text field_num_def venue_fields num_zero)

lemma scenario3_state_fields:
  "similarMode (scenario3_state b) = b" "q (scenario3_state b) = ''Cafe''"
  "district (scenario3_state b) = ''downtown''" "insight (scenario3_state b) = ''all''"
  "categories (scenario3_state b) = [''all'']" "sentiment (scenario3_state b) = ''good''"
  "price (scenario3_state b) = ''low''" "tags (scenario3_state b) = [''wifi'']"
  by (simp_all add: scenario3_state_def)

lemma scenario3_pick: "pick_insight [all_insight] (insight (scenario3_state b)) = Some all_insight"
  by (simp add: pick_insight_def scenario3_state_fields all_insight_def)

lemma scenario3_filter:
  "filter (\<lambda>p. text_match h (scenario3_state b) p \<and> sentiment_match (scenario3_state b) p \<and>
               price_match (scenario3_state b) p \<and> tags_match (scenario3_state b) p) scenario3_rows
   = [venue ''Cafe One'' JUndefined ''good'' ''low'' [''wifi''],
      venue ''Cafe Five'' (JStr ''downtown'') ''good'' ''low'' [''quiet'', ''wifi'']]"
  by (simp add: scenario3_rows_def text_match_def sentiment_match_def price_match_def
        tags_match_def scenario3_state_fields lower_cafe venue_search venue_fields venue_tags
        LABEL_ALL_def)

lemma scenario3_filter_normal:
  "filter (\<lambda>p. district_match (scenario3_state b) p \<and> category_match (scenario3_state b) p \<and>
               predicate all_insight p = Inr True \<and>
               text_match h (scenario3_state b) p \<and> sentiment_match (scenario3_state b) p \<and>
               price_match (scenario3_state b) p \<and> tags_match (scenario3_state b) p) scenario3_rows
   = [venue ''Cafe Five'' (JStr ''downtown'') ''good'' ''low'' [''quiet'', ''wifi'']]"
  by (simp add: scenario3_rows_def text_match_def sentiment_match_def price_match_def
        tags_match_def district_match_def category_match_def all_insight_def always_true_def
        scenario3_state_fields lower_cafe venue_search venue_fields venue_tags LABEL_ALL_def)

theorem similar_mode_bypass_witness:
  "pick_insight [all_insight] (insight (scenario3_state True)) = Some all_insight \<and>
   pick_insight [all_insight] (insight (scenario3_state False)) = Some all_insight \<and>
   list_all tags_are_array scenario3_rows \<and>
   similarMode (scenario3_state True) \<and> \<not> similarMode (scenario3_state False) \<and>
   list_all (\<lambda>p. predicate all_insight p = Inr True) scenario3_rows \<and>
   compilePredicate sample_host JNull = Inr always_true \<and>
   tags_are_array (venue ''Bar'' (JStr ''downtown'') ''good'' ''low'' [''wifi'']) \<and>
   always_true (venue ''Bar'' (JStr ''downtown'') ''good'' ''low'' [''wifi'']) = Inr True \<and>
   filterData sample_host [all_insight] (scenario3_state True) scenario3_rows
     = Inr [venue ''Cafe One'' JUndefined ''good'' ''low'' [''wifi''],
            venue ''Cafe Five'' (JStr ''downtown'') ''good'' ''low'' [''quiet'', ''wifi'']] \<and>
   filterData sample_host [all_insight] (scenario3_state False) scenario3_rows
     = Inr [venue ''Cafe Five'' (JStr ''downtown'') ''good'' ''low'' [''quiet'', ''wifi'']]"
proof -
  have a: "\<forall>p \<in> set scenario3_rows. tags_are_array p"
    by (simp add: scenario3_rows_def venue_tags)
  have t: "\<forall>p \<in> set scenario3_rows. \<exists>b. predicate all_insight p = Inr b"
    by (auto simp: all_insight_def always_true_def)
  have s: "sortSpec all_insight = ''desc:bayes2_score''" by (simp add: all_insight_def)
  have 1: "filterData sample_host [all_insight] (scenario3_state True) scenario3_rows
     = Inr [venue ''Cafe One'' JUndefined ''good'' ''low'' [''wifi''],
            venue ''Cafe Five'' (JStr ''downtown'') ''good'' ''low'' [''quiet'', ''wifi'']]"
    using a scenario3_pick[of True]
      similar_mode_bypass [of "[all_insight]" "scenario3_state True" all_insight scenario3_rows
        sample_host "Fin 0" JNull]
    by (simp add: scenario3_state_fields scenario3_filter s js_sort_def sortBySpec_venue)
  have 2: "filterData sample_host [all_insight] (scenario3_state False) scenario3_rows
     = Inr [venue ''Cafe Five'' (JStr ''downtown'') ''good'' ''low'' [''quiet'', ''wifi'']]"
    using a t scenario3_pick[of False]
      similar_mode_bypass [of "[all_insight]" "scenario3_state False" all_insight scenario3_rows
        sample_host "Fin 0" JNull]
    by (simp add: scenario3_state_fields scenario3_filter_normal s js_sort_def)
  have l: "list_all tags_are_array scenario3_rows"
    "list_all (\<lambda>p. predicate all_insight p = Inr True) scenario3_rows"
    by (simp_all add: scenario3_rows_def venue_tags all_insight_def always_true_def)
  have m: "similarMode (scenario3_state True)" "\<not> similarMode (scenario3_state False)"
    by (simp_all add: scenario3_state_fields)
  have c: "compilePredicate sample_host JNull = Inr always_true"
    by (simp add: compilePredicate_def compilePredicate_body_def rule_text_def js_or_def
          trim_def Let_def)
  have v: "tags_are_array (venue ''Bar'' (JStr ''downtown'') ''good'' ''low'' [''wifi''])"
    by (simp add: venue_tags)
  have e: "always_true (venue ''Bar'' (JStr ''downtown'') ''good'' ''low'' [''wifi'']) = Inr True"
    using c v
      similar_mode_bypass [of "[all_insight]" "scenario3_state True" all_insight scenario3_rows
        sample_host "Fin 0" JNull JNull always_true
        "venue ''Bar'' (JStr ''downtown'') ''good'' ''low'' [''wifi'']"]
    by (simp add: always_true_def)
  from 1 2 l m c v e scenario3_pick[of True] scenario3_pick[of False] show ?thesis
    by blast
qed

section \<open>The sort and idempotence of the pipeline\<close>

lemma set_insert_sorted: "set (insert_sorted cmp x ys) = insert x (set ys)"
  by (induction ys) auto

lemma set_js_sort: "set (js_sort cmp xs) = set xs"
  unfolding js_sort_def by (induction xs) (auto simp: set_insert_sorted)

lemma sorted_insert_sorted:
  assumes asym: "\<And>x y. js_gt (cmp x y) (Fin 0) \<Longrightarrow> \<not> js_gt (cmp y x) (Fin 0)"
    and trans: "\<And>x y z. \<not> js_gt (cmp x y) (Fin 0) \<Longrightarrow> \<not> js_gt (cmp y z) (Fin 0)
                  \<Longrightarrow> \<not> js_gt (cmp x z) (Fin 0)"
  shows "sorted_wrt (\<lambda>x y. \<not> js_gt (cmp x y) (Fin 0)) ys \<Longrightarrow>
         sorted_wrt (\<lambda>x y. \<not> js_gt (cmp x y) (Fin 0)) (insert_sorted cmp x ys)"
proof (induction ys)
  case Nil
  then show ?case by simp
next
  case (Cons y ys)
  show ?case
  proof (cases "js_gt (cmp x y) (Fin 0)")
    case True
    with Cons asym show ?thesis
      by (auto simp: set_insert_sorted)
  next
    case False
    with Cons.prems trans show ?thesis
      by auto
  qed
qed

lemma sorted_js_sort:
  assumes "\<And>x y. js_gt (cmp x y) (Fin 0) \<Longrightarrow> \<not> js_gt (cmp y x) (Fin 0)"
    and "\<And>x y z. \<not> js_gt (cmp x y) (Fin 0) \<Longrightarrow> \<not> js_gt (cmp y z) (Fin 0)
                  \<Longrightarrow> \<not> js_gt (cmp x z) (Fin 0)"
  shows "sorted_wrt (\<lambda>x y. \<not> js_gt (cmp x y) (Fin 0)) (js_sort cmp xs)"
  unfolding js_sort_def
  by (induction xs) (auto intro: sorted_insert_sorted[OF assms])

lemma js_sort_sorted:
  "sorted_wrt (\<lambda>x y. \<not> js_gt (cmp x y) (Fin 0)) xs \<Longrightarrow> js_sort cmp xs = xs"
proof (induction xs)
  case Nil
  then show ?case by (simp add: js_sort_def)
next
  case (Cons x xs)
  then have "js_sort cmp xs = xs" by simp
  then have "js_sort cmp (x # xs) = insert_sorted cmp x xs"
    by (simp add: js_sort_def)
  also have "\<dots> = x # xs"
    using Cons.prems by (cases xs) auto
  finally show ?case .
qed

text \<open>Records that compare equal keep their order: the sort is stable.\<close>

lemma filter_insert_sorted:
  assumes "\<And>a b. E a \<Longrightarrow> E b \<Longrightarrow> \<not> js_gt (cmp a b) (Fin 0)"
  shows "filter E (insert_sorted cmp x ys) = filter E (x # ys)"
  using assms by (induction ys) auto

lemma filter_js_sort:
  assumes "\<And>a b. E a \<Longrightarrow> E b \<Longrightarrow> \<not> js_gt (cmp a b) (Fin 0)"
  shows "filter E (js_sort cmp xs) = filter E xs"
  unfolding js_sort_def
  by (induction xs) (simp_all add: filter_insert_sorted[OF assms])

text \<open>Each comparator of \<open>sortBySpec\<close> is a consistent ordering.\<close>

lemma js_gt_zero: "js_gt (Fin d) (Fin 0) = (0 < d)"
  by simp

lemma sortBySpec_asym:
  assumes "js_gt (sortBySpec h a b spec) (Fin 0)"
  shows "\<not> js_gt (sortBySpec h b a spec) (Fin 0)"
proof (cases "startsWith (ToString h (js_or spec (JStr []))) ''desc:''")
  case True
  with assms show ?thesis by (simp add: sortBySpec_desc)
next
  case nd: False
  show ?thesis
  proof (cases "startsWith (ToString h (js_or spec (JStr []))) ''asc:''")
    case True
    with nd assms show ?thesis by (simp add: sortBySpec_asc)
  next
    case na: False
    show ?thesis
    proof (cases "ToString h (js_or spec (JStr [])) = ''special:mustgo''")
      case True
      with assms show ?thesis
        unfolding sortBySpec_def by (simp add: num_field Let_def split: if_splits)
    next
      case False
      with nd na assms show ?thesis by (simp add: sortBySpec_default split: if_splits)
    qed
  qed
qed

lemma sortBySpec_trans:
  assumes "\<not> js_gt (sortBySpec h a b spec) (Fin 0)" and "\<not> js_gt (sortBySpec h b c spec) (Fin 0)"
  shows "\<not> js_gt (sortBySpec h a c spec) (Fin 0)"
proof (cases "startsWith (ToString h (js_or spec (JStr []))) ''desc:''")
  case True
  with assms show ?thesis by (simp add: sortBySpec_desc)
next
  case nd: False
  show ?thesis
  proof (cases "startsWith (ToString h (js_or spec (JStr []))) ''asc:''")
    case True
    with nd assms show ?thesis by (simp add: sortBySpec_asc)
  next
    case na: False
    show ?thesis
    proof (cases "ToString h (js_or spec (JStr [])) = ''special:mustgo''")
      case True
      with assms show ?thesis
        unfolding sortBySpec_def by (simp add: num_field Let_def split: if_splits)
    next
      case False
      with nd na assms show ?thesis by (simp add: sortBySpec_default split: if_splits)
    qed
  qed
qed

lemma bindE_eq_Inr: "bindE m f = Inr y \<Longrightarrow> \<exists>x. m = Inr x \<and> f x = Inr y"
  by (cases m) auto

lemma filterE_again:
  assumes "filterE f xs = Inr ys" and "set zs \<subseteq> set ys"
  shows "filterE f zs = Inr zs"
  using assms filterE_set[OF assms(1)] by (intro filterE_all) auto

lemma filterData_idempotent:
  assumes "filterData h INSIGHTS st rows = Inr out"
  shows "filterData h INSIGHTS st out = Inr out"
proof -
  from assms obtain insightObj where pick: "pick_insight INSIGHTS (insight st) = Some insightObj"
    by (auto simp: filterData_def split: option.splits)
  define cmp where "cmp = (\<lambda>a b. sortBySpec h a b (JStr (sortSpec insightObj)))"
  from assms pick have
    "bindE (filterE (unless_similar st (district_test st)) rows) (\<lambda>r1.
     bindE (filterE (unless_similar st (category_test st)) r1) (\<lambda>r2.
     bindE (filterE (unless_similar st (predicate insightObj)) r2) (\<lambda>r3.
     bindE (filterE (text_test h st) r3) (\<lambda>r4.
     bindE (filterE (sentiment_test st) r4) (\<lambda>r5.
     bindE (filterE (price_test st) r5) (\<lambda>r6.
     bindE (filterE (tags_test st) r6) (\<lambda>r7.
     Inr (js_sort cmp r7)))))))) = Inr out"
    by (simp add: filterData_def cmp_def)
  then obtain r1 r2 r3 r4 r5 r6 r7 where
    s1: "filterE (unless_similar st (district_test st)) rows = Inr r1" and
    s2: "filterE (unless_similar st (category_test st)) r1 = Inr r2" and
    s3: "filterE (unless_similar st (predicate insightObj)) r2 = Inr r3" and
    s4: "filterE (text_test h st) r3 = Inr r4" and
    s5: "filterE (sentiment_test st) r4 = Inr r5" and
    s6: "filterE (price_test st) r5 = Inr r6" and
    s7: "filterE (tags_test st) r6 = Inr r7" and
    out: "out = js_sort cmp r7"
    by (fastforce dest!: bindE_eq_Inr)
  have sub: "set out \<subseteq> set r7" "set r7 \<subseteq> set r6" "set r6 \<subseteq> set r5" "set r5 \<subseteq> set r4"
    "set r4 \<subseteq> set r3" "set r3 \<subseteq> set r2" "set r2 \<subseteq> set r1"
    using out s2 s3 s4 s5 s6 s7 by (auto simp: set_js_sort dest: filterE_set)
  have t: "filterE (unless_similar st (district_test st)) out = Inr out"
    "filterE (unless_similar st (category_test st)) out = Inr out"
    "filterE (unless_similar st (predicate insightObj)) out = Inr out"
    "filterE (text_test h st) out = Inr out"
    "filterE (sentiment_test st) out = Inr out"
    "filterE (price_test st) out = Inr out"
    "filterE (tags_test st) out = Inr out"
    using sub
    by (blast intro: filterE_again[OF s1] filterE_again[OF s2] filterE_again[OF s3]
          filterE_again[OF s4] filterE_again[OF s5] filterE_again[OF s6] filterE_again[OF s7]
          order_trans)+
  have "sorted_wrt (\<lambda>x y. \<not> js_gt (cmp x y) (Fin 0)) out"
    unfolding out cmp_def
    by (rule sorted_js_sort) (auto dest: sortBySpec_asym sortBySpec_trans)
  then have "js_sort cmp out = out" by (rule js_sort_sorted)
  with pick t show ?thesis
    by (simp add: filterData_def cmp_def)
qed

text \<open>
  Claim C7.  For every record list and every state, the pipeline is a function of its
  inputs, and applying it a second time, to its own output under the same state, returns
  that output unchanged and in the same order.  The sort is stable: records that compare
  equal under the comparator keep the order they had in the input.
\<close>

theorem pipeline_idempotent:
  "(filterData h INSIGHTS st rows = Inr out \<longrightarrow> filterData h INSIGHTS st out = Inr out) \<and>
   ((\<forall>a b. E a \<and> E b \<longrightarrow> sortBySpec h a b spec = Fin 0) \<longrightarrow>
      filter E (js_sort (\<lambda>a b. sortBySpec h a b spec) xs) = filter E xs)"
proof -
  have "filter E (js_sort (\<lambda>a b. sortBySpec h a b spec) xs) = filter E xs"
    if "\<forall>a b. E a \<and> E b \<longrightarrow> sortBySpec h a b spec = Fin 0"
    using that by (intro filter_js_sort) simp
  then show ?thesis
    using filterData_idempotent by blast
qed

lemma sortBySpec_scored:
  "sortBySpec h (scored t v r) (scored t' v' r') (JStr ''desc:bayes2_score'') = Fin (t' - t)"
  by (simp add: sortBySpec_desc desc_score_text field_num_scored)

lemma heat_state_tests:
  "unless_similar (heat_state k) (district_test (heat_state k)) p = Inr True"
  "unless_similar (heat_state k) (category_test (heat_state k)) p = Inr True"
  "unless_similar (heat_state k) always_true p = Inr True"
  "text_test h (heat_state k) p = Inr True" "sentiment_test (heat_state k) p = Inr True"
  "price_test (heat_state k) p = Inr True" "tags_test (heat_state k) p = Inr True"
  by (simp_all add: unless_similar_def district_test_def category_test_def always_true_def
        text_test_def sentiment_test_def price_test_def tags_test_def heat_state_def
        toLowerCase_def)

lemma filterData_all:
  "filterData h [all_insight] (heat_state ''all'') rows =
     Inr (js_sort (\<lambda>a b. sortBySpec h a b (JStr ''desc:bayes2_score'')) rows)"
proof -
  have p: "pick_insight [all_insight] (insight (heat_state ''all'')) = Some all_insight"
    by (simp add: pick_insight_def all_insight_def heat_state_def)
  have a: "predicate all_insight = always_true" "sortSpec all_insight = ''desc:bayes2_score''"
    by (simp_all add: all_insight_def)
  show ?thesis
    by (simp add: filterData_def p a heat_state_tests filterE_all)
qed

theorem pipeline_idempotent_witness:
  "filterData sample_host [all_insight] (heat_state ''all'')
     [scored 0.5 10 4, scored 0.9 20 4, scored 0.9 30 3]
     = Inr [scored 0.9 20 4, scored 0.9 30 3, scored 0.5 10 4] \<and>
   filterData sample_host [all_insight] (heat_state ''all'')
     [scored 0.9 20 4, scored 0.9 30 3, scored 0.5 10 4]
     = Inr [scored 0.9 20 4, scored 0.9 30 3, scored 0.5 10 4] \<and>
   filter top_scored
     (js_sort (\<lambda>a b. sortBySpec sample_host a b (JStr ''desc:bayes2_score''))
        [scored 0.5 10 4, scored 0.9 20 4, scored 0.9 30 3])
     = filter top_scored [scored 0.5 10 4, scored 0.9 20 4, scored 0.9 30 3]"
proof -
  have f: "filterData sample_host [all_insight] (heat_state ''all'')
     [scored 0.5 10 4, scored 0.9 20 4, scored 0.9 30 3]
     = Inr [scored 0.9 20 4, scored 0.9 30 3, scored 0.5 10 4]"
    by (simp add: filterData_all js_sort_def sortBySpec_scored)
  have e: "\<forall>a b. top_scored a \<and> top_scored b \<longrightarrow>
             sortBySpec sample_host a b (JStr ''desc:bayes2_score'') = Fin 0"
    by (simp add: top_scored_def sortBySpec_desc desc_score_text)
  show ?thesis
    using f e
      pipeline_idempotent [of sample_host "[all_insight]" "heat_state ''all''"
        "[scored 0.5 10 4, scored 0.9 20 4, scored 0.9 30 3]"
        "[scored 0.9 20 4, scored 0.9 30 3, scored 0.5 10 4]"
        top_scored "JStr ''desc:bayes2_score''"
        "[scored 0.5 10 4, scored 0.9 20 4, scored 0.9 30 3]"]
    by blast
qed

end
